theory Spec2Isabelle
  imports Complex_Main
begin

section \<open>The wind turbine power curve of \<open>main_project01.py\<close>\<close>

text \<open>
  The program is the single function \<open>wind_turbine_power\<close> (the specification calls it
  \<open>evaluate_power\<close>). The selector \<open>interpolation_option\<close> is a Python string and stays a
  \<^typ>\<open>string\<close>. The numeric arguments are annotated \<open>float\<close>, and the specification
  describes them as real numbers. The function is therefore embedded twice, with the same
  branch structure:

  \<^item> \<open>wind_turbine_power\<close> computes over \<^typ>\<open>real\<close> with exact arithmetic. It carries
    the statements that depend only on the order of the tests and on comparisons, and
    the concrete default scenarios; each of them is proved again on floats.
  \<^item> \<open>wind_turbine_power_f64\<close> computes over Python floats: IEEE 754 binary64 values
    with infinities and NaN, every operation rounded to the nearest value, ties to even.
    It carries every statement whose truth depends on rounding, overflow or underflow.

  Every way the Python function can leave by an exception is a value of \<open>error\<close>:
  the explicit \<open>raise ValueError\<close>, the \<open>ZeroDivisionError\<close> of the operator \<open>/\<close>, the
  \<open>OverflowError\<close> of the operator \<open>**\<close> on floats, and the \<open>UnboundLocalError\<close> that
  reading \<open>g_v\<close> would give if neither arm of the inner \<open>if\<close>/\<open>elif\<close> had assigned it.
\<close>

datatype error = ValueError | ZeroDivisionError | UnboundLocalError | OverflowError

section \<open>The function over exact real arithmetic\<close>

definition truediv :: "real \<Rightarrow> real \<Rightarrow> error + real" where
  \<comment> \<open>Python's \<open>a / b\<close>: raises on a zero divisor.\<close>
  "truediv a b = (if b = 0 then Inl ZeroDivisionError else Inr (a / b))"

definition g_v_linear :: "real \<Rightarrow> real \<Rightarrow> real \<Rightarrow> error + real" where
  \<comment> \<open>line 52\<close>
  "g_v_linear wind_speed cut_in_wind_speed rated_wind_speed =
     truediv (wind_speed - cut_in_wind_speed) (rated_wind_speed - cut_in_wind_speed)"

definition g_v_cubic :: "real \<Rightarrow> real \<Rightarrow> error + real" where
  \<comment> \<open>line 58\<close>
  "g_v_cubic wind_speed rated_wind_speed =
     truediv (wind_speed ^ 3) (rated_wind_speed ^ 3)"

definition ramp_branch :: "real \<Rightarrow> real \<Rightarrow> real \<Rightarrow> real \<Rightarrow> string \<Rightarrow> error + real" where
  \<comment> \<open>lines 50 to 59: the body of the \<open>elif\<close> branch\<close>
  "ramp_branch wind_speed rated_power cut_in_wind_speed rated_wind_speed interpolation_option =
     (case (if interpolation_option = ''linear''
              then g_v_linear wind_speed cut_in_wind_speed rated_wind_speed
            else if interpolation_option = ''cubic''
              then g_v_cubic wind_speed rated_wind_speed
            else Inl UnboundLocalError) of
        Inl e \<Rightarrow> Inl e
      | Inr g_v \<Rightarrow> Inr (g_v * rated_power))"

definition wind_turbine_power ::
    "real \<Rightarrow> real \<Rightarrow> real \<Rightarrow> real \<Rightarrow> real \<Rightarrow> string \<Rightarrow> error + real" where
  \<comment> \<open>lines 43 to 61\<close>
  "wind_turbine_power wind_speed rated_power cut_in_wind_speed rated_wind_speed
       cut_out_wind_speed interpolation_option =
     (if interpolation_option \<notin> set [''linear'', ''cubic''] then Inl ValueError
      else if wind_speed < cut_in_wind_speed \<or> wind_speed \<ge> cut_out_wind_speed then Inr 0
      else if cut_in_wind_speed \<le> wind_speed \<and> wind_speed < rated_wind_speed
        then ramp_branch wind_speed rated_power cut_in_wind_speed rated_wind_speed
               interpolation_option
      else Inr rated_power)"

definition wind_turbine_power_default :: "real \<Rightarrow> string \<Rightarrow> error + real" where
  \<comment> \<open>a call that leaves the four keyword parameters at their defaults (lines 5 to 8)\<close>
  "wind_turbine_power_default wind_speed interpolation_option =
     wind_turbine_power wind_speed 15 3 11 25 interpolation_option"

section \<open>Python floats\<close>

text \<open>
  A Python float is a finite binary64 value, an infinity or NaN. The finite values are
  the reals \<open>m * 2 ^ e\<close> with \<open>\<bar>m\<bar> < 2 ^ 53\<close> and \<open>- 1074 \<le> e\<close> below \<open>2 ^ 1024\<close>; they are
  the reals that rounding leaves unchanged (\<open>is_double\<close>). The two zeros of binary64 are
  one value here: the comparison operators of Python and its test for a zero divisor do
  not tell them apart.

  \<open>rne\<close> rounds a real to an integer, a tie to the even neighbour. \<open>ulp_exp x\<close> is the
  exponent of the last mantissa bit of the binade of \<open>x\<close>, at least \<open>e_min\<close> (gradual
  underflow). \<open>rnd\<close> rounds a real to 53 bits of precision with an exponent unbounded above,
  and \<open>fl\<close> turns the rounded value into a float, an infinity when it reaches \<open>2 ^ 1024\<close>.
\<close>

datatype pyfloat = Finite real | PInf | NInf | NaN

definition e_min :: int where
  "e_min = - 1074"

definition e_max :: int where
  "e_max = 1024"

definition rne :: "real \<Rightarrow> int" where
  "rne t = (let f = \<lfloor>t\<rfloor> in
              if t - of_int f < 1 / 2 then f
              else if 1 / 2 < t - of_int f then f + 1
              else if even f then f else f + 1)"

definition ulp_exp :: "real \<Rightarrow> int" where
  "ulp_exp x = max (\<lfloor>log 2 \<bar>x\<bar>\<rfloor> - 52) e_min"

definition rnd :: "real \<Rightarrow> real" where
  "rnd x = (if x = 0 then 0
            else of_int (rne (x / 2 powi ulp_exp x)) * 2 powi ulp_exp x)"

definition fl :: "real \<Rightarrow> pyfloat" where
  "fl x = (if 2 powi e_max \<le> rnd x then PInf
           else if rnd x \<le> - (2 powi e_max) then NInf
           else Finite (rnd x))"

definition is_double :: "real \<Rightarrow> bool" where
  "is_double x \<longleftrightarrow> fl x = Finite x"

fun is_float :: "pyfloat \<Rightarrow> bool" where
  "is_float (Finite x) = is_double x"
| "is_float PInf = True"
| "is_float NInf = True"
| "is_float NaN = True"

text \<open>
  Comparisons with NaN are false. Subtraction, multiplication and division follow
  IEEE 754; Python's \<open>a / b\<close> on floats raises \<open>ZeroDivisionError\<close> exactly when \<open>b\<close> is
  zero, whatever \<open>a\<close> is, and \<open>fquot\<close> is its value otherwise.
\<close>

fun flt :: "pyfloat \<Rightarrow> pyfloat \<Rightarrow> bool" where
  "flt (Finite x) (Finite y) = (x < y)"
| "flt (Finite x) PInf = True"
| "flt NInf (Finite y) = True"
| "flt NInf PInf = True"
| "flt _ _ = False"

fun fle :: "pyfloat \<Rightarrow> pyfloat \<Rightarrow> bool" where
  "fle (Finite x) (Finite y) = (x \<le> y)"
| "fle (Finite x) PInf = True"
| "fle NInf (Finite y) = True"
| "fle NInf PInf = True"
| "fle PInf PInf = True"
| "fle NInf NInf = True"
| "fle _ _ = False"

definition fge :: "pyfloat \<Rightarrow> pyfloat \<Rightarrow> bool" where
  "fge a b = fle b a"

fun fsub :: "pyfloat \<Rightarrow> pyfloat \<Rightarrow> pyfloat" where
  "fsub (Finite x) (Finite y) = fl (x - y)"
| "fsub (Finite x) PInf = NInf"
| "fsub (Finite x) NInf = PInf"
| "fsub PInf (Finite y) = PInf"
| "fsub PInf NInf = PInf"
| "fsub NInf (Finite y) = NInf"
| "fsub NInf PInf = NInf"
| "fsub _ _ = NaN"

fun fmul :: "pyfloat \<Rightarrow> pyfloat \<Rightarrow> pyfloat" where
  "fmul (Finite x) (Finite y) = fl (x * y)"
| "fmul (Finite x) PInf = (if x = 0 then NaN else if 0 < x then PInf else NInf)"
| "fmul (Finite x) NInf = (if x = 0 then NaN else if 0 < x then NInf else PInf)"
| "fmul PInf (Finite y) = (if y = 0 then NaN else if 0 < y then PInf else NInf)"
| "fmul NInf (Finite y) = (if y = 0 then NaN else if 0 < y then NInf else PInf)"
| "fmul PInf PInf = PInf"
| "fmul PInf NInf = NInf"
| "fmul NInf PInf = NInf"
| "fmul NInf NInf = PInf"
| "fmul _ _ = NaN"

fun fquot :: "pyfloat \<Rightarrow> pyfloat \<Rightarrow> pyfloat" where
  "fquot (Finite x) (Finite y) = fl (x / y)"
| "fquot PInf (Finite y) = (if 0 < y then PInf else NInf)"
| "fquot NInf (Finite y) = (if 0 < y then NInf else PInf)"
| "fquot (Finite x) PInf = Finite 0"
| "fquot (Finite x) NInf = Finite 0"
| "fquot _ _ = NaN"

fun fneg :: "pyfloat \<Rightarrow> pyfloat" where
  "fneg (Finite x) = Finite (- x)"
| "fneg PInf = NInf"
| "fneg NInf = PInf"
| "fneg NaN = NaN"

definition float_truediv :: "pyfloat \<Rightarrow> pyfloat \<Rightarrow> error + pyfloat" where
  \<comment> \<open>Python's \<open>a / b\<close> on floats\<close>
  "float_truediv a b = (if b = Finite 0 then Inl ZeroDivisionError else Inr (fquot a b))"

text \<open>
  \<open>x ** 3\<close> on floats is CPython's \<open>float_pow\<close>: NaN and the infinities are returned as
  they are, zero gives zero, one and minus one give themselves, a negative base is
  negated before the C library is called and the result negated again. For the remaining
  bases, finite, positive and other than one, CPython calls the C library's \<open>pow\<close> and
  raises when \<open>errno\<close> is set afterwards. The rounding of \<open>pow\<close> is not fixed by the
  language (the library need not round the exact cube correctly), so the outcome of that
  call, a float or an exception, is the parameter \<open>libm_pow\<close> of the embedding.
  \<open>pow_nearest\<close> is the outcome for a library that rounds the exact cube to the nearest
  float and reports a range error exactly on overflow; concrete evaluations use it at
  arguments whose cubes are exactly representable, or far outside the range of binary64.
\<close>

fun float_pow3 :: "(real \<Rightarrow> error + pyfloat) \<Rightarrow> pyfloat \<Rightarrow> error + pyfloat" where
  \<comment> \<open>Python's \<open>x ** 3\<close> on a float \<open>x\<close>\<close>
  "float_pow3 libm_pow (Finite x) =
     (if x = 0 then Inr (Finite 0)
      else if x = 1 then Inr (Finite 1)
      else if x = - 1 then Inr (Finite (- 1))
      else if x < 0 then
        (case libm_pow (- x) of Inl e \<Rightarrow> Inl e | Inr y \<Rightarrow> Inr (fneg y))
      else libm_pow x)"
| "float_pow3 libm_pow a = Inr a"

definition pow_nearest :: "real \<Rightarrow> error + pyfloat" where
  "pow_nearest x =
     (case fl (x ^ 3) of
        PInf \<Rightarrow> Inl OverflowError
      | NInf \<Rightarrow> Inl OverflowError
      | y \<Rightarrow> Inr y)"

section \<open>The function over Python floats\<close>

definition g_v_linear_f64 :: "pyfloat \<Rightarrow> pyfloat \<Rightarrow> pyfloat \<Rightarrow> error + pyfloat" where
  \<comment> \<open>line 52\<close>
  "g_v_linear_f64 wind_speed cut_in_wind_speed rated_wind_speed =
     float_truediv (fsub wind_speed cut_in_wind_speed) (fsub rated_wind_speed cut_in_wind_speed)"

definition g_v_cubic_f64 ::
    "(real \<Rightarrow> error + pyfloat) \<Rightarrow> pyfloat \<Rightarrow> pyfloat \<Rightarrow> error + pyfloat" where
  \<comment> \<open>line 58: the cube of the wind speed first, then the cube of the rated speed, then the quotient\<close>
  "g_v_cubic_f64 libm_pow wind_speed rated_wind_speed =
     (case float_pow3 libm_pow wind_speed of
        Inl e \<Rightarrow> Inl e
      | Inr a \<Rightarrow>
          (case float_pow3 libm_pow rated_wind_speed of
             Inl e \<Rightarrow> Inl e
           | Inr b \<Rightarrow> float_truediv a b))"

definition ramp_branch_f64 ::
    "(real \<Rightarrow> error + pyfloat) \<Rightarrow> pyfloat \<Rightarrow> pyfloat \<Rightarrow> pyfloat \<Rightarrow> pyfloat \<Rightarrow> string \<Rightarrow>
       error + pyfloat" where
  \<comment> \<open>lines 50 to 59: the body of the \<open>elif\<close> branch\<close>
  "ramp_branch_f64 libm_pow wind_speed rated_power cut_in_wind_speed rated_wind_speed
       interpolation_option =
     (case (if interpolation_option = ''linear''
              then g_v_linear_f64 wind_speed cut_in_wind_speed rated_wind_speed
            else if interpolation_option = ''cubic''
              then g_v_cubic_f64 libm_pow wind_speed rated_wind_speed
            else Inl UnboundLocalError) of
        Inl e \<Rightarrow> Inl e
      | Inr g_v \<Rightarrow> Inr (fmul g_v rated_power))"

definition wind_turbine_power_f64 ::
    "(real \<Rightarrow> error + pyfloat) \<Rightarrow> pyfloat \<Rightarrow> pyfloat \<Rightarrow> pyfloat \<Rightarrow> pyfloat \<Rightarrow> pyfloat \<Rightarrow> string \<Rightarrow>
       error + pyfloat" where
  \<comment> \<open>lines 43 to 61; the chained comparison of line 49 is the conjunction of its halves\<close>
  "wind_turbine_power_f64 libm_pow wind_speed rated_power cut_in_wind_speed rated_wind_speed
       cut_out_wind_speed interpolation_option =
     (if interpolation_option \<notin> set [''linear'', ''cubic''] then Inl ValueError
      else if flt wind_speed cut_in_wind_speed \<or> fge wind_speed cut_out_wind_speed
        then Inr (Finite 0)
      else if fle cut_in_wind_speed wind_speed \<and> flt wind_speed rated_wind_speed
        then ramp_branch_f64 libm_pow wind_speed rated_power cut_in_wind_speed rated_wind_speed
               interpolation_option
      else Inr rated_power)"

section \<open>Rounding to nearest\<close>

lemma rne_of_int: "rne (of_int k) = k"
  by (simp add: rne_def)

lemma rne_lower: "\<lfloor>t\<rfloor> \<le> rne t"
  by (simp add: rne_def Let_def)

lemma rne_upper: "rne t \<le> \<lfloor>t\<rfloor> + 1"
  by (simp add: rne_def Let_def)

lemma rne_mono:
  assumes "s \<le> t"
  shows "rne s \<le> rne t"
proof (cases "\<lfloor>s\<rfloor> = \<lfloor>t\<rfloor>")
  case True
  then show ?thesis using assms by (auto simp add: rne_def Let_def)
next
  case False
  with assms have "\<lfloor>s\<rfloor> + 1 \<le> \<lfloor>t\<rfloor>"
    using floor_mono [OF assms] by linarith
  with rne_upper [of s] rne_lower [of t] show ?thesis by linarith
qed

lemma rne_minus: "rne (- t) = - rne t"
proof (cases "t = of_int \<lfloor>t\<rfloor>")
  case True
  then obtain k where "t = of_int k" by blast
  then have "- t = of_int (- k)" by simp
  then show ?thesis unfolding \<open>t = of_int k\<close> by (metis rne_of_int)
next
  case False
  have "of_int \<lfloor>t\<rfloor> \<le> t" by (rule of_int_floor_le)
  with False have lt: "of_int \<lfloor>t\<rfloor> < t" by linarith
  have "\<lceil>t\<rceil> = \<lfloor>t\<rfloor> + 1" using False by (metis ceiling_altdef)
  then have fl: "\<lfloor>- t\<rfloor> = - \<lfloor>t\<rfloor> - 1" by (simp add: floor_minus)
  show ?thesis
    using lt unfolding rne_def Let_def fl by auto
qed

lemma rne_nonneg: "0 \<le> t \<Longrightarrow> 0 \<le> rne t"
  using rne_mono [of 0 t] rne_of_int [of 0] by simp

lemma rne_half:
  assumes "\<bar>t\<bar> \<le> 1 / 2"
  shows "rne t = 0"
proof -
  have pos: "rne s = 0" if "0 \<le> s" "s \<le> 1 / 2" for s :: real
  proof -
    from that have "\<lfloor>s\<rfloor> = 0" by (intro floor_unique) simp_all
    then show ?thesis using that by (simp add: rne_def)
  qed
  show ?thesis
  proof (cases "0 \<le> t")
    case True
    then show ?thesis using assms by (intro pos) simp_all
  next
    case False
    then have "rne (- t) = 0" using assms by (intro pos) simp_all
    then show ?thesis by (simp add: rne_minus)
  qed
qed

lemma floor_log2_bracket:
  assumes "x \<noteq> 0"
  shows "2 powi \<lfloor>log 2 \<bar>x\<bar>\<rfloor> \<le> \<bar>x\<bar>" and "\<bar>x\<bar> < 2 powi (\<lfloor>log 2 \<bar>x\<bar>\<rfloor> + 1)"
proof -
  have pos: "0 < \<bar>x\<bar>" using assms by simp
  have "(2::real) powr \<lfloor>log 2 \<bar>x\<bar>\<rfloor> \<le> \<bar>x\<bar> \<and> \<bar>x\<bar> < 2 powr (\<lfloor>log 2 \<bar>x\<bar>\<rfloor> + 1)"
    using floor_log_eq_powr_iff [OF pos, of 2 "\<lfloor>log 2 \<bar>x\<bar>\<rfloor>"] by simp
  moreover have "(2::real) powr real_of_int k = 2 powi k" for k
    by (rule powr_real_of_int') simp_all
  ultimately show "2 powi \<lfloor>log 2 \<bar>x\<bar>\<rfloor> \<le> \<bar>x\<bar>"
    and "\<bar>x\<bar> < 2 powi (\<lfloor>log 2 \<bar>x\<bar>\<rfloor> + 1)"
    by (metis, metis of_int_1 of_int_add)
qed

lemma floor_log2_eq:
  assumes "2 powi k \<le> \<bar>x\<bar>" and "\<bar>x\<bar> < 2 powi (k + 1)"
  shows "\<lfloor>log 2 \<bar>x\<bar>\<rfloor> = k"
proof -
  have "0 < (2::real) powi k" by simp
  with assms(1) have pos: "0 < \<bar>x\<bar>" by linarith
  have eq: "(2::real) powr real_of_int j = 2 powi j" for j
    by (rule powr_real_of_int') simp_all
  have "(2::real) powr k \<le> \<bar>x\<bar> \<and> \<bar>x\<bar> < 2 powr (real_of_int k + 1)"
    using assms eq [of k] eq [of "k + 1"] by simp
  then show ?thesis
    using floor_log_eq_powr_iff [OF pos, of 2 k] by simp
qed

lemma ulp_exp_eq:
  assumes "2 powi k \<le> \<bar>x\<bar>" and "\<bar>x\<bar> < 2 powi (k + 1)"
  shows "ulp_exp x = max (k - 52) e_min"
  by (simp add: ulp_exp_def floor_log2_eq [OF assms])

lemma ulp_exp_minus: "ulp_exp (- x) = ulp_exp x"
  by (simp add: ulp_exp_def)

lemma ulp_exp_ge: "e_min \<le> ulp_exp x"
  by (simp add: ulp_exp_def)

lemma rnd_minus: "rnd (- x) = - rnd x"
  by (simp add: rnd_def ulp_exp_minus rne_minus)

lemma scaled_upper:
  assumes "x \<noteq> 0"
  shows "\<bar>x\<bar> / 2 powi ulp_exp x < 2 ^ 53"
proof -
  let ?k = "\<lfloor>log 2 \<bar>x\<bar>\<rfloor>"
  have "?k + 1 \<le> ulp_exp x + 53" by (simp add: ulp_exp_def)
  then have "(2::real) powi (?k + 1) \<le> 2 powi (ulp_exp x + 53)"
    by (intro power_int_increasing) simp_all
  with floor_log2_bracket(2) [OF assms] have "\<bar>x\<bar> < 2 powi (ulp_exp x + 53)" by linarith
  also have "\<dots> = 2 powi ulp_exp x * 2 ^ 53" by (simp add: power_int_add)
  finally show ?thesis by (simp add: field_simps)
qed

lemma scaled_lower:
  assumes "x \<noteq> 0" and "e_min < ulp_exp x"
  shows "2 ^ 52 \<le> \<bar>x\<bar> / 2 powi ulp_exp x"
proof -
  let ?k = "\<lfloor>log 2 \<bar>x\<bar>\<rfloor>"
  from assms(2) have "?k = ulp_exp x + 52" by (simp add: ulp_exp_def max_def split: if_splits)
  with floor_log2_bracket(1) [OF assms(1)] have "2 powi (ulp_exp x + 52) \<le> \<bar>x\<bar>" by simp
  moreover have "(2::real) powi (ulp_exp x + 52) = 2 powi ulp_exp x * 2 ^ 52"
    by (simp add: power_int_add)
  ultimately show ?thesis by (simp add: field_simps)
qed

lemma ulp_exp_mono:
  assumes "0 < x" and "x \<le> y"
  shows "ulp_exp x \<le> ulp_exp y"
proof -
  have "log 2 x \<le> log 2 y" using assms by simp
  then have "\<lfloor>log 2 x\<rfloor> \<le> \<lfloor>log 2 y\<rfloor>" by (rule floor_mono)
  then show ?thesis using assms by (simp add: ulp_exp_def)
qed

lemma rnd_nonneg: "0 \<le> x \<Longrightarrow> 0 \<le> rnd x"
  by (simp add: rnd_def rne_nonneg)

lemma rnd_mono_pos:
  assumes "0 < x" and "x \<le> y"
  shows "rnd x \<le> rnd y"
proof -
  let ?ex = "ulp_exp x" and ?ey = "ulp_exp y"
  have x0: "x \<noteq> 0" and y0: "y \<noteq> 0" and ypos: "0 < y" using assms by simp_all
  have le: "?ex \<le> ?ey" by (rule ulp_exp_mono [OF assms])
  show ?thesis
  proof (cases "?ex = ?ey")
    case True
    have "x / 2 powi ?ey \<le> y / 2 powi ?ey"
      using assms(2) by (simp add: divide_right_mono)
    then have "rne (x / 2 powi ?ey) \<le> rne (y / 2 powi ?ey)" by (rule rne_mono)
    then have "real_of_int (rne (x / 2 powi ?ey)) * 2 powi ?ey \<le>
               real_of_int (rne (y / 2 powi ?ey)) * 2 powi ?ey"
      by (intro mult_right_mono) simp_all
    then show ?thesis using x0 y0 True by (simp add: rnd_def)
  next
    case False
    with le have lt: "?ex + 1 \<le> ?ey" and ey: "e_min < ?ey"
      using ulp_exp_ge [of x] by linarith+
    have "x / 2 powi ?ex \<le> 2 ^ 53" using scaled_upper [OF x0] assms(1) by simp
    then have "rne (x / 2 powi ?ex) \<le> rne (of_int (2 ^ 53))"
      by (intro rne_mono) simp
    then have "rne (x / 2 powi ?ex) \<le> 2 ^ 53" by (simp only: rne_of_int)
    then have "real_of_int (rne (x / 2 powi ?ex)) \<le> 2 ^ 53"
      by (metis of_int_le_iff of_int_numeral of_int_power)
    then have "real_of_int (rne (x / 2 powi ?ex)) * 2 powi ?ex \<le> 2 ^ 53 * 2 powi ?ex"
      by (intro mult_right_mono) simp_all
    also have "\<dots> = 2 ^ 52 * 2 powi (?ex + 1)" by (simp add: power_int_add)
    also have "\<dots> \<le> 2 ^ 52 * 2 powi ?ey"
      using lt by (intro mult_left_mono power_int_increasing) simp_all
    also have "\<dots> \<le> real_of_int (rne (y / 2 powi ?ey)) * 2 powi ?ey"
    proof -
      have "2 ^ 52 \<le> y / 2 powi ?ey" using scaled_lower [OF y0 ey] ypos by simp
      then have "rne (of_int (2 ^ 52)) \<le> rne (y / 2 powi ?ey)"
        by (intro rne_mono) simp
      then have "2 ^ 52 \<le> rne (y / 2 powi ?ey)" by (simp only: rne_of_int)
      then have "2 ^ 52 \<le> real_of_int (rne (y / 2 powi ?ey))"
        by (metis of_int_le_iff of_int_numeral of_int_power)
      then show ?thesis by (intro mult_right_mono) simp_all
    qed
    finally show ?thesis using x0 y0 by (simp add: rnd_def)
  qed
qed

lemma rnd_mono:
  assumes "x \<le> y"
  shows "rnd x \<le> rnd y"
proof -
  consider "0 < x" | "x \<le> 0" "0 \<le> y" | "y < 0" by linarith
  then show ?thesis
  proof cases
    case 1
    then show ?thesis using assms by (rule rnd_mono_pos)
  next
    case 2
    then have "rnd x \<le> 0" using rnd_nonneg [of "- x"] by (simp add: rnd_minus)
    moreover have "0 \<le> rnd y" using 2 by (simp add: rnd_nonneg)
    ultimately show ?thesis by linarith
  next
    case 3
    then have "rnd (- y) \<le> rnd (- x)" using assms by (intro rnd_mono_pos) simp_all
    then show ?thesis by (simp add: rnd_minus)
  qed
qed

lemma powi_lt_imp_lt:
  assumes "(2::real) powi j \<le> x" and "x < 2 powi k"
  shows "j < k"
proof (rule ccontr)
  assume "\<not> j < k"
  then have "(2::real) powi k \<le> 2 powi j" by (intro power_int_increasing) simp_all
  with assms show False by linarith
qed

lemma rnd_exact:
  assumes "\<bar>m\<bar> < 2 ^ 53" and "e_min \<le> e"
  shows "rnd (of_int m * 2 powi e) = of_int m * 2 powi e"
proof (cases "m = 0")
  case True
  then show ?thesis by (simp add: rnd_def)
next
  case False
  define x where "x = real_of_int m * 2 powi e"
  define ex where "ex = ulp_exp x"
  have x0: "x \<noteq> 0" using False by (simp add: x_def)
  have "real_of_int \<bar>m\<bar> < 2 ^ 53"
    using assms(1) by (metis of_int_less_iff of_int_numeral of_int_power)
  then have "\<bar>x\<bar> < 2 ^ 53 * 2 powi e"
    by (simp add: x_def abs_mult)
  also have "\<dots> = 2 powi (e + 53)" by (simp add: power_int_add)
  finally have "\<bar>x\<bar> < 2 powi (e + 53)" .
  with floor_log2_bracket(1) [OF x0] have "\<lfloor>log 2 \<bar>x\<bar>\<rfloor> < e + 53"
    by (rule powi_lt_imp_lt)
  with assms(2) have le: "ex \<le> e" by (simp add: ex_def ulp_exp_def)
  have "(2::real) powi e = 2 powi (e - ex) * 2 powi ex"
    by (simp flip: power_int_add)
  also have "(2::real) powi (e - ex) = 2 ^ nat (e - ex)"
    using le by (simp add: power_int_def)
  finally have split: "(2::real) powi e = 2 ^ nat (e - ex) * 2 powi ex" .
  have "x / 2 powi ex = real_of_int m * 2 ^ nat (e - ex)"
    unfolding x_def by (subst split) simp
  also have "\<dots> = real_of_int (m * 2 ^ nat (e - ex))" by simp
  finally have "rne (x / 2 powi ex) = m * 2 ^ nat (e - ex)"
    by (simp only: rne_of_int)
  then have "rnd x = real_of_int (m * 2 ^ nat (e - ex)) * 2 powi ex"
    using x0 by (simp add: rnd_def ex_def)
  also have "\<dots> = real_of_int m * (2 ^ nat (e - ex) * 2 powi ex)" by simp
  also have "\<dots> = x" unfolding x_def by (simp only: split [symmetric])
  finally show ?thesis by (simp only: x_def)
qed

lemma rnd_grid: "\<exists>j::int. rnd x = of_int j * 2 powi e_min"
proof (cases "x = 0")
  case True
  then have "rnd x = of_int 0 * 2 powi e_min" by (simp add: rnd_def)
  then show ?thesis by blast
next
  case False
  define ex where "ex = ulp_exp x"
  have "(2::real) powi ex = 2 powi (ex - e_min) * 2 powi e_min"
    by (simp flip: power_int_add)
  also have "(2::real) powi (ex - e_min) = 2 ^ nat (ex - e_min)"
    using ulp_exp_ge [of x] by (simp add: power_int_def ex_def)
  finally have "rnd x = real_of_int (rne (x / 2 powi ex) * 2 ^ nat (ex - e_min)) * 2 powi e_min"
    using False by (simp add: rnd_def ex_def)
  then show ?thesis by blast
qed

lemma rnd_smallest: "rnd (2 powi e_min) = 2 powi e_min"
  using rnd_exact [of 1 e_min] by simp

lemma rnd_diff_pos:
  assumes "rnd a = a" and "rnd b = b" and "a < b"
  shows "0 < rnd (b - a)"
proof -
  let ?u = "(2::real) powi e_min"
  have u: "0 < ?u" by simp
  from rnd_grid [of a] rnd_grid [of b] assms(1,2)
  obtain ja jb :: int where a: "a = of_int ja * ?u" and b: "b = of_int jb * ?u"
    by metis
  from assms(3) have "real_of_int ja * ?u < real_of_int jb * ?u" unfolding a b .
  then have "real_of_int ja < real_of_int jb" using u by (simp only: mult_less_cancel_right_pos)
  then have "ja + 1 \<le> jb" by simp
  then have "real_of_int ja + 1 \<le> real_of_int jb" by linarith
  then have "(real_of_int ja + 1) * ?u \<le> real_of_int jb * ?u"
    using u by (intro mult_right_mono) simp_all
  then have "?u \<le> b - a" unfolding a b by (simp add: algebra_simps)
  then have "rnd ?u \<le> rnd (b - a)" by (rule rnd_mono)
  with u show ?thesis by (simp only: rnd_smallest)
qed

lemma rnd_abs_le:
  assumes "\<bar>x\<bar> \<le> M" and "rnd M = M"
  shows "\<bar>rnd x\<bar> \<le> M"
proof -
  have "rnd x \<le> rnd M" using assms(1) by (intro rnd_mono) simp
  moreover have "rnd (- M) \<le> rnd x" using assms(1) by (intro rnd_mono) simp
  ultimately show ?thesis using assms(2) by (simp add: rnd_minus)
qed

lemma rnd_eval:
  assumes "2 powi k \<le> \<bar>x\<bar>" and "\<bar>x\<bar> < 2 powi (k + 1)"
  shows "rnd x = of_int (rne (x / 2 powi max (k - 52) e_min)) * 2 powi max (k - 52) e_min"
proof -
  have "0 < (2::real) powi k" by simp
  with assms(1) have "0 < \<bar>x\<bar>" by linarith
  then have "x \<noteq> 0" by simp
  then show ?thesis by (simp add: rnd_def ulp_exp_eq [OF assms])
qed

lemma rnd_tiny:
  assumes "\<bar>x\<bar> < 2 powi (e_min + 52)"
  shows "rnd x = of_int (rne (x / 2 powi e_min)) * 2 powi e_min"
proof (cases "x = 0")
  case True
  then show ?thesis using rne_of_int [of 0] by (simp add: rnd_def)
next
  case False
  from floor_log2_bracket(1) [OF False] assms have "\<lfloor>log 2 \<bar>x\<bar>\<rfloor> < e_min + 52"
    by (rule powi_lt_imp_lt)
  then have "\<lfloor>log 2 \<bar>x\<bar>\<rfloor> - 52 \<le> e_min" by linarith
  then have "ulp_exp x = e_min" unfolding ulp_exp_def by (rule max_absorb2)
  then show ?thesis using False by (simp add: rnd_def)
qed

lemma rnd_tiny_scaled:
  assumes "\<bar>t\<bar> < 2 ^ 52"
  shows "rnd (t * 2 powi e_min) = of_int (rne t) * 2 powi e_min"
proof -
  have "\<bar>t * 2 powi e_min\<bar> = \<bar>t\<bar> * 2 powi e_min" by (simp add: abs_mult)
  also have "\<dots> < 2 ^ 52 * 2 powi e_min"
    using assms by (intro mult_strict_right_mono) simp_all
  also have "\<dots> = 2 powi (e_min + 52)" by (simp add: power_int_add)
  finally show ?thesis by (simp add: rnd_tiny)
qed

lemma rnd_underflow:
  assumes "\<bar>x\<bar> \<le> 2 powi (e_min - 1)"
  shows "rnd x = 0"
proof -
  define t where "t = x / 2 powi e_min"
  have half: "(2::real) powi (e_min - 1) = 1 / 2 * 2 powi e_min"
    by (simp add: power_int_diff)
  have x: "x = t * 2 powi e_min" by (simp add: t_def)
  have "\<bar>t\<bar> = \<bar>x\<bar> / 2 powi e_min" by (simp add: t_def)
  also have "\<dots> \<le> (1 / 2 * 2 powi e_min) / 2 powi e_min"
    using assms unfolding half by (intro divide_right_mono) simp_all
  finally have t: "\<bar>t\<bar> \<le> 1 / 2" by simp
  then have "\<bar>t\<bar> < 2 ^ 52" by (rule le_less_trans) simp
  then have "rnd x = of_int (rne t) * 2 powi e_min" unfolding x by (rule rnd_tiny_scaled)
  then show ?thesis using rne_half [OF t] by simp
qed

section \<open>Rounding to a float\<close>

lemma fl_finite:
  assumes "\<bar>rnd x\<bar> < 2 powi e_max"
  shows "fl x = Finite (rnd x)"
  using assms by (simp add: fl_def abs_less_iff not_le)

lemma is_double_rnd: "is_double x \<Longrightarrow> rnd x = x"
  by (auto simp add: is_double_def fl_def split: if_splits)

lemma is_double_bound: "is_double x \<Longrightarrow> \<bar>x\<bar> < 2 powi e_max"
  by (auto simp add: is_double_def fl_def split: if_splits)

lemma is_double_exact:
  assumes "\<bar>m\<bar> < 2 ^ 53" and "e_min \<le> e" and "e + 53 \<le> e_max"
  shows "is_double (of_int m * 2 powi e)"
proof -
  let ?x = "real_of_int m * 2 powi e"
  have "real_of_int \<bar>m\<bar> < 2 ^ 53"
    using assms(1) by (metis of_int_less_iff of_int_numeral of_int_power)
  then have "\<bar>?x\<bar> < 2 ^ 53 * 2 powi e" by (simp add: abs_mult)
  also have "\<dots> = 2 powi (e + 53)" by (simp add: power_int_add)
  also have "\<dots> \<le> 2 powi e_max" using assms(3) by (intro power_int_increasing) simp_all
  finally have "\<bar>?x\<bar> < 2 powi e_max" .
  then have "\<bar>rnd ?x\<bar> < 2 powi e_max" by (simp only: rnd_exact [OF assms(1,2)])
  then have "fl ?x = Finite (rnd ?x)" by (rule fl_finite)
  then show ?thesis by (simp only: is_double_def rnd_exact [OF assms(1,2)])
qed

lemma is_double_int:
  assumes "\<bar>m\<bar> < 2 ^ 53"
  shows "is_double (of_int m)"
  using is_double_exact [OF assms, of 0] by (simp add: e_min_def e_max_def)

lemma fl_le_double:
  assumes "\<bar>x\<bar> \<le> M" and "is_double M"
  shows "fl x = Finite (rnd x)" and "\<bar>rnd x\<bar> \<le> M"
proof -
  show le: "\<bar>rnd x\<bar> \<le> M" using assms(1) is_double_rnd [OF assms(2)] by (rule rnd_abs_le)
  with is_double_bound [OF assms(2)] have "\<bar>rnd x\<bar> < 2 powi e_max" by linarith
  then show "fl x = Finite (rnd x)" by (rule fl_finite)
qed

lemma is_double_1: "is_double 1"
  using is_double_int [of 1] by simp

lemma fl_pos:
  assumes "0 < rnd x"
  shows "flt (Finite 0) (fl x)"
  using assms by (simp add: fl_def)

lemma fl_int:
  assumes "\<bar>m\<bar> < 2 ^ 53"
  shows "fl (of_int m) = Finite (of_int m)"
  using is_double_int [OF assms] by (simp add: is_double_def)

lemma is_double_dyadic:
  assumes "\<bar>m\<bar> < 2 ^ 53" and "n \<le> 1074"
  shows "is_double (of_int m / 2 ^ n)"
proof -
  have "is_double (of_int m * 2 powi (- int n))"
    using assms by (intro is_double_exact) (simp_all add: e_min_def e_max_def)
  then show ?thesis by (simp add: power_int_minus field_simps)
qed

lemma fl_dyadic:
  assumes "\<bar>m\<bar> < 2 ^ 53" and "n \<le> 1074"
  shows "fl (of_int m / 2 ^ n) = Finite (of_int m / 2 ^ n)"
  using is_double_dyadic [OF assms] by (simp add: is_double_def)

lemma fl_eval:
  assumes "2 powi k \<le> \<bar>x\<bar>" and "\<bar>x\<bar> < 2 powi (k + 1)"
    and "e_min \<le> k - 52" and "k + 1 < e_max"
  shows "fl x = Finite (of_int (rne (x / 2 powi (k - 52))) * 2 powi (k - 52))"
proof -
  have "rnd (of_int 1 * 2 powi (k + 1)) = of_int 1 * 2 powi (k + 1)"
    using assms(3) by (intro rnd_exact) simp_all
  then have "rnd (2 powi (k + 1)) = 2 powi (k + 1)" by simp
  with assms(2) have "\<bar>rnd x\<bar> \<le> 2 powi (k + 1)" by (intro rnd_abs_le) simp_all
  also have "(2::real) powi (k + 1) < 2 powi e_max"
    using assms(4) by (intro power_int_strict_increasing) simp_all
  finally have "fl x = Finite (rnd x)" by (rule fl_finite)
  moreover have "max (k - 52) e_min = k - 52" using assms(3) by simp
  ultimately show ?thesis using rnd_eval [OF assms(1,2)] by simp
qed

lemma fl_underflow:
  assumes "\<bar>x\<bar> \<le> 2 powi (e_min - 1)"
  shows "fl x = Finite 0"
proof -
  have "0 < (2::real) powi e_max" by simp
  then show ?thesis using rnd_underflow [OF assms] by (simp add: fl_def not_le)
qed

lemma fl_overflow:
  assumes "2 powi e_max \<le> x"
  shows "fl x = PInf"
proof -
  have "rnd (of_int 1 * 2 powi e_max) = of_int 1 * 2 powi e_max"
    by (intro rnd_exact) (simp_all add: e_min_def e_max_def)
  then have "rnd (2 powi e_max) = 2 powi e_max" by simp
  with rnd_mono [OF assms] show ?thesis by (simp add: fl_def)
qed

lemma fl_numeral:
  "numeral w < (2::int) ^ 53 \<Longrightarrow> fl (numeral w) = Finite (numeral w)"
  using fl_int [of "numeral w"] by simp

lemma fl_0: "fl 0 = Finite 0"
  using fl_int [of 0] by simp

lemma fl_1: "fl 1 = Finite 1"
  using fl_int [of 1] by simp

lemma is_double_numeral:
  "numeral w < (2::int) ^ 53 \<Longrightarrow> is_double (numeral w)"
  using is_double_int [of "numeral w"] by simp

lemma pow2_cube: "((2::real) powi k) ^ 3 = 2 powi (3 * k)"
proof -
  have "3 * k = k + (k + k)" by simp
  then have "(2::real) powi (3 * k) = 2 powi (k + (k + k))" by (rule arg_cong)
  also have "\<dots> = 2 powi k * 2 powi (k + k)" by (rule power_int_add) simp
  also have "(2::real) powi (k + k) = 2 powi k * 2 powi k" by (rule power_int_add) simp
  finally show ?thesis by (simp add: power3_eq_cube)
qed

lemma pow2_lt: "j < k \<Longrightarrow> (2::real) powi j < 2 powi k"
  by (rule power_int_strict_increasing) simp_all

lemma pow2_le: "j \<le> k \<Longrightarrow> (2::real) powi j \<le> 2 powi k"
  by (rule power_int_increasing) simp_all

lemma pow2_lt_1: "k < 0 \<Longrightarrow> (2::real) powi k < 1"
  using pow2_lt [of k 0] by simp

section \<open>Comparisons and operations on floats\<close>

lemma fle_not_flt: "fle a b \<Longrightarrow> \<not> flt b a"
  by (cases a; cases b) simp_all

lemma flt_not_fge: "flt a b \<Longrightarrow> \<not> fge a b"
  by (cases a; cases b) (simp_all add: fge_def)

lemma fle_flt_trans: "fle a b \<Longrightarrow> flt b c \<Longrightarrow> flt a c"
  by (cases a; cases b; cases c) simp_all

lemma flt_trans: "flt a b \<Longrightarrow> flt b c \<Longrightarrow> flt a c"
  by (cases a; cases b; cases c) simp_all

lemma fsub_pos:
  assumes "is_float a" and "is_float b" and "flt a b"
  shows "flt (Finite 0) (fsub b a)"
proof (cases a)
  case (Finite x)
  note a = this
  show ?thesis
  proof (cases b)
    case (Finite y)
    with a assms have "rnd x = x" "rnd y = y" "x < y"
      by (simp_all add: is_double_rnd)
    then have "0 < rnd (y - x)" by (rule rnd_diff_pos)
    then show ?thesis using a Finite by (simp add: fl_pos)
  qed (use a assms in simp_all)
qed (use assms in \<open>cases b; simp\<close>)+

lemma flt_zero_ne: "flt (Finite 0) d \<Longrightarrow> d \<noteq> Finite 0"
  by (cases d) auto

lemma fsub_no_overflow:
  assumes "is_double c" and "is_double r" and "0 \<le> c" and "c \<le> r"
  shows "fsub (Finite r) (Finite c) \<noteq> PInf"
proof -
  have "\<bar>r - c\<bar> \<le> r" using assms(3,4) by simp
  from fl_le_double(1) [OF this assms(2)] show ?thesis by simp
qed

lemma fmul_fraction:
  assumes "is_double p" and "0 \<le> p" and "0 \<le> g" and "g \<le> 1"
  shows "\<exists>q. fmul (Finite g) (Finite p) = Finite q \<and> 0 \<le> q \<and> q \<le> p \<and> q = rnd (g * p)"
proof -
  have "0 \<le> g * p" using assms by simp
  moreover have "g * p \<le> 1 * p" using assms by (intro mult_right_mono) simp_all
  ultimately have "\<bar>g * p\<bar> \<le> p" by simp
  from fl_le_double [OF this assms(1)] rnd_nonneg [OF \<open>0 \<le> g * p\<close>]
  show ?thesis by auto
qed

lemma fmul_one:
  assumes "is_double p"
  shows "fmul (Finite 1) (Finite p) = Finite p"
  using assms by (simp add: is_double_def)

lemma float_pow3_pow2:
  assumes "k \<noteq> 0"
  shows "float_pow3 libm_pow (Finite (2 powi k)) = libm_pow (2 powi k)"
proof -
  have "(2::real) powi k \<noteq> 1"
  proof (cases "k < 0")
    case True
    then show ?thesis using pow2_lt [of k 0] by simp
  next
    case False
    with assms have "0 < k" by simp
    then show ?thesis using pow2_lt [of 0 k] by simp
  qed
  moreover have pos: "0 < (2::real) powi k" by simp
  moreover from pos have "\<not> (2::real) powi k < 0" "(2::real) powi k \<noteq> - 1"
    by linarith+
  ultimately show ?thesis by simp
qed

lemma float_pow3_pow_nearest:
  assumes "0 \<le> x"
  shows "float_pow3 pow_nearest (Finite x) = pow_nearest x"
  using assms fl_0 fl_1 by (simp add: pow_nearest_def not_less)

lemma pow_nearest_numeral:
  "numeral w ^ 3 < (2::int) ^ 53 \<Longrightarrow> pow_nearest (numeral w) = Inr (Finite (numeral w ^ 3))"
  using fl_int [of "numeral w ^ 3"] by (simp add: pow_nearest_def)

lemma pow_nearest_underflow:
  assumes "k \<le> - 359"
  shows "pow_nearest (2 powi k) = Inr (Finite 0)"
proof -
  have "(2::real) powi (3 * k) \<le> 2 powi (e_min - 1)"
    using assms by (intro pow2_le) (simp add: e_min_def)
  then have "fl ((2 powi k) ^ 3) = Finite 0"
    by (intro fl_underflow) (simp add: pow2_cube)
  then show ?thesis by (simp add: pow_nearest_def)
qed

lemma pow_nearest_overflow:
  assumes "342 \<le> k"
  shows "pow_nearest (2 powi k) = Inl OverflowError"
proof -
  have "(2::real) powi e_max \<le> 2 powi (3 * k)"
    using assms by (intro pow2_le) (simp add: e_max_def)
  then have "fl ((2 powi k) ^ 3) = PInf"
    by (intro fl_overflow) (simp add: pow2_cube)
  then show ?thesis by (simp add: pow_nearest_def)
qed

lemma pow_nearest_mono:
  assumes "0 \<le> v" and "v \<le> r"
    and "float_pow3 pow_nearest (Finite r) = Inr (Finite b)"
  shows "\<exists>a. float_pow3 pow_nearest (Finite v) = Inr (Finite a) \<and> 0 \<le> a \<and> a \<le> b"
proof -
  from assms have r: "0 \<le> r" by simp
  from assms(3) have "pow_nearest r = Inr (Finite b)"
    by (simp only: float_pow3_pow_nearest [OF r])
  then have b: "b = rnd (r ^ 3)" "\<bar>b\<bar> < 2 powi e_max"
    by (auto simp add: pow_nearest_def fl_def split: if_splits)
  define a where "a = rnd (v ^ 3)"
  have "0 \<le> v ^ 3" "v ^ 3 \<le> r ^ 3"
    using assms(1,2) by (simp_all add: power_mono)
  then have a: "0 \<le> a" "a \<le> b"
    unfolding a_def b(1) by (simp_all add: rnd_nonneg rnd_mono)
  then have "\<bar>a\<bar> < 2 powi e_max" using b(2) by simp
  then have "fl (v ^ 3) = Finite a" unfolding a_def by (rule fl_finite)
  then have "pow_nearest v = Inr (Finite a)" by (simp add: pow_nearest_def)
  with a show ?thesis unfolding float_pow3_pow_nearest [OF assms(1)] by blast
qed

lemma float_pow3_no_value_error:
  assumes "\<And>x. libm_pow x \<noteq> Inl ValueError"
  shows "float_pow3 libm_pow a \<noteq> Inl ValueError"
proof (cases a)
  case (Finite x)
  show ?thesis
  proof (cases "libm_pow (- x)")
    case (Inl e)
    with assms [of "- x"] assms [of x] Finite show ?thesis by auto
  next
    case (Inr y)
    with assms [of x] Finite show ?thesis by auto
  qed
qed simp_all

section \<open>The ramp branch on floats\<close>

lemma wind_turbine_power_f64_ramp:
  assumes "interpolation_option \<in> set [''linear'', ''cubic'']"
    and "fle cut_in_wind_speed wind_speed" and "flt wind_speed rated_wind_speed"
    and "flt wind_speed cut_out_wind_speed"
  shows "wind_turbine_power_f64 libm_pow wind_speed rated_power cut_in_wind_speed rated_wind_speed
           cut_out_wind_speed interpolation_option =
         ramp_branch_f64 libm_pow wind_speed rated_power cut_in_wind_speed rated_wind_speed
           interpolation_option"
  using assms fle_not_flt [OF assms(2)] flt_not_fge [OF assms(4)]
  by (simp add: wind_turbine_power_f64_def)

lemma g_v_linear_f64_fraction:
  assumes "is_double c" and "is_double r" and "c \<le> v" and "v \<le> r" and "c < r"
    and "fsub (Finite r) (Finite c) \<noteq> PInf"
  shows "g_v_linear_f64 (Finite v) (Finite c) (Finite r) =
           Inr (Finite (rnd (rnd (v - c) / rnd (r - c)))) \<and>
         0 \<le> rnd (rnd (v - c) / rnd (r - c)) \<and> rnd (rnd (v - c) / rnd (r - c)) \<le> 1 \<and>
         0 < rnd (r - c)"
proof -
  define d where "d = rnd (r - c)"
  define a where "a = rnd (v - c)"
  have d: "0 < d" unfolding d_def
    using assms(1,2,5) by (intro rnd_diff_pos is_double_rnd)
  have fd: "fl (r - c) = Finite d"
    using assms(6) d by (auto simp add: fl_def d_def split: if_splits)
  then have dh: "d < 2 powi e_max" by (auto simp add: fl_def d_def split: if_splits)
  have a: "0 \<le> a" "a \<le> d"
    unfolding a_def d_def using assms(3,4) rnd_nonneg [of "v - c"]
    by (simp_all add: rnd_mono)
  then have "\<bar>a\<bar> < 2 powi e_max" using dh by simp
  then have fa: "fl (v - c) = Finite a" unfolding a_def by (rule fl_finite)
  have q: "0 \<le> a / d" "a / d \<le> 1" using a d by simp_all
  then have "\<bar>a / d\<bar> \<le> 1" by simp
  from fl_le_double [OF this is_double_1] rnd_nonneg [OF q(1)]
  have "fl (a / d) = Finite (rnd (a / d))" "0 \<le> rnd (a / d)" "rnd (a / d) \<le> 1"
    by simp_all
  then show ?thesis
    using d fa fd by (simp add: g_v_linear_f64_def float_truediv_def a_def d_def)
qed

lemma g_v_cubic_f64_fraction:
  assumes "float_pow3 libm_pow (Finite v) = Inr (Finite a)"
    and "float_pow3 libm_pow (Finite r) = Inr (Finite b)"
    and "0 \<le> a" and "a \<le> b" and "b \<noteq> 0"
  shows "\<exists>g. g_v_cubic_f64 libm_pow (Finite v) (Finite r) = Inr (Finite g) \<and> 0 \<le> g \<and> g \<le> 1 \<and>
             (a = b \<longrightarrow> g = 1)"
proof -
  from assms(3-5) have bpos: "0 < b" by simp
  have q: "0 \<le> a / b" "a / b \<le> 1" using assms(3,4) bpos by simp_all
  then have "\<bar>a / b\<bar> \<le> 1" by simp
  from fl_le_double [OF this is_double_1] rnd_nonneg [OF q(1)]
  have g: "fl (a / b) = Finite (rnd (a / b))" "0 \<le> rnd (a / b)" "rnd (a / b) \<le> 1"
    by simp_all
  have "rnd (a / b) = 1" if "a = b"
  proof -
    from that have "a / b = 1" using bpos by simp
    then show ?thesis using is_double_rnd [OF is_double_1] by simp
  qed
  with g assms(1,2,5) show ?thesis
    by (simp add: g_v_cubic_f64_def float_truediv_def)
qed

lemma ramp_branch_f64_cubic_bounds:
  assumes "is_double rated_power" and "0 \<le> rated_power"
    and "float_pow3 libm_pow (Finite v) = Inr (Finite a)"
    and "float_pow3 libm_pow (Finite r) = Inr (Finite b)"
    and "0 \<le> a" and "a \<le> b" and "b \<noteq> 0"
  shows "\<exists>p. ramp_branch_f64 libm_pow (Finite v) (Finite rated_power) c (Finite r) ''cubic'' =
               Inr (Finite p) \<and> 0 \<le> p \<and> p \<le> rated_power \<and> (a = b \<longrightarrow> p = rated_power)"
proof -
  from g_v_cubic_f64_fraction [OF assms(3-7)]
  obtain g where g: "g_v_cubic_f64 libm_pow (Finite v) (Finite r) = Inr (Finite g)"
    "0 \<le> g" "g \<le> 1" "a = b \<longrightarrow> g = 1" by blast
  from fmul_fraction [OF assms(1,2) g(2,3)]
  obtain q where q: "fmul (Finite g) (Finite rated_power) = Finite q" "0 \<le> q"
    "q \<le> rated_power" by blast
  have "q = rated_power" if "a = b"
    using that g(4) q(1) fmul_one [OF assms(1)] by simp
  with g(1) q show ?thesis by (simp add: ramp_branch_f64_def)
qed

lemma ramp_branch_f64_linear_bounds:
  assumes "is_double rated_power" and "0 \<le> rated_power"
    and "is_double c" and "is_double r" and "c \<le> v" and "v < r"
    and "fsub (Finite r) (Finite c) \<noteq> PInf"
  shows "\<exists>p. ramp_branch_f64 libm_pow (Finite v) (Finite rated_power) (Finite c) (Finite r)
               ''linear'' = Inr (Finite p) \<and> 0 \<le> p \<and> p \<le> rated_power"
proof -
  from assms(5,6) have "v \<le> r" "c < r" by simp_all
  from g_v_linear_f64_fraction [OF assms(3,4,5) this assms(7)]
  obtain g where g: "g_v_linear_f64 (Finite v) (Finite c) (Finite r) = Inr (Finite g)"
    "0 \<le> g" "g \<le> 1" by blast
  from fmul_fraction [OF assms(1,2) g(2,3)]
  obtain q where q: "fmul (Finite g) (Finite rated_power) = Finite q" "0 \<le> q"
    "q \<le> rated_power" by blast
  with g(1) show ?thesis by (simp add: ramp_branch_f64_def)
qed

section \<open>The idle and shut-down region\<close>

text \<open>
  Claim C1. With either valid interpolation option and any numeric parameters, a wind
  speed below the cut-in speed, or at or above the cut-out speed, gives exactly \<open>0.0\<close>.
\<close>

theorem idle_region_zero:
  assumes "interpolation_option \<in> set [''linear'', ''cubic'']"
    and "wind_speed < cut_in_wind_speed \<or> wind_speed \<ge> cut_out_wind_speed"
  shows "wind_turbine_power wind_speed rated_power cut_in_wind_speed rated_wind_speed
           cut_out_wind_speed interpolation_option = Inr 0"
  using assms by (simp add: wind_turbine_power_def)

theorem idle_region_zero_witness:
  "''cubic'' \<in> set [''linear'', ''cubic''] \<and> ((2::real) < 3 \<or> (2::real) \<ge> 25) \<and>
   wind_turbine_power 2 15 3 11 25 ''cubic'' = Inr 0"
  using idle_region_zero [of "''cubic''" 2 3 25 15 11] by simp

text \<open>The same holds on floats, for every float including NaN and the infinities.\<close>

lemma idle_region_zero_f64:
  assumes "interpolation_option \<in> set [''linear'', ''cubic'']"
    and "flt wind_speed cut_in_wind_speed \<or> fge wind_speed cut_out_wind_speed"
  shows "wind_turbine_power_f64 libm_pow wind_speed rated_power cut_in_wind_speed
           rated_wind_speed cut_out_wind_speed interpolation_option = Inr (Finite 0)"
  using assms by (simp add: wind_turbine_power_f64_def)

section \<open>The rated plateau\<close>

text \<open>
  Claim C2. With either valid interpolation option, a wind speed with
  \<open>rated_wind_speed \<le> wind_speed < cut_out_wind_speed\<close> that is also not below the cut-in
  speed gives exactly \<open>rated_power\<close>; the boundary \<open>wind_speed = rated_wind_speed\<close> is
  part of this plateau. The idle test of line 47 runs first, so below the cut-in speed the
  result is \<open>0.0\<close> whatever the rated speed is: the condition
  \<open>cut_in_wind_speed \<le> wind_speed\<close> cannot be dropped.
\<close>

theorem plateau_region_rated_power:
  assumes "interpolation_option \<in> set [''linear'', ''cubic'']"
    and "cut_in_wind_speed \<le> wind_speed"
    and "rated_wind_speed \<le> wind_speed" and "wind_speed < cut_out_wind_speed"
  shows "wind_turbine_power wind_speed rated_power cut_in_wind_speed rated_wind_speed
           cut_out_wind_speed interpolation_option = Inr rated_power"
  using assms by (simp add: wind_turbine_power_def)

theorem plateau_region_rated_power_witness:
  "''linear'' \<in> set [''linear'', ''cubic''] \<and> (3::real) \<le> 11 \<and> (11::real) \<le> 11 \<and>
   (11::real) < 25 \<and> wind_turbine_power 11 15 3 11 25 ''linear'' = Inr 15"
  using plateau_region_rated_power [of "''linear''" 3 11 11 25 15] by simp

text \<open>
  With cut-in speed 10 above the rated speed 3, the wind speed 5 lies in
  \<open>[rated_wind_speed, cut_out_wind_speed)\<close> and the call returns \<open>0.0\<close>, not the rated
  power 15.
\<close>

theorem plateau_below_cut_in_counterexample:
  "(3::real) \<le> 5 \<and> (5::real) < 25 \<and>
   wind_turbine_power 5 15 10 3 25 ''linear'' = Inr 0 \<and>
   wind_turbine_power 5 15 10 3 25 ''linear'' \<noteq> Inr 15"
  by (simp add: wind_turbine_power_def)

text \<open>The same holds on floats.\<close>

lemma plateau_region_rated_power_f64:
  assumes "interpolation_option \<in> set [''linear'', ''cubic'']"
    and "fle cut_in_wind_speed wind_speed"
    and "fle rated_wind_speed wind_speed" and "flt wind_speed cut_out_wind_speed"
  shows "wind_turbine_power_f64 libm_pow wind_speed rated_power cut_in_wind_speed
           rated_wind_speed cut_out_wind_speed interpolation_option = Inr rated_power"
  using assms fle_not_flt [OF assms(2)] fle_not_flt [OF assms(3)] flt_not_fge [OF assms(4)]
  by (simp add: wind_turbine_power_f64_def)

section \<open>The ramp between cut-in and rated speed\<close>

text \<open>
  Claim C3. With the option \<open>linear\<close> and float arguments, a wind speed with
  \<open>cut_in_wind_speed \<le> wind_speed < rated_wind_speed\<close> that is also below the cut-out
  speed gives the float \<open>((wind_speed - cut_in_wind_speed) /
  (rated_wind_speed - cut_in_wind_speed)) * rated_power\<close>, where the two differences,
  their quotient and the product are each rounded to the nearest float, in this order;
  the divisor is not zero there, so nothing is raised. At or above the cut-out speed the
  idle test of line 47 wins and the result is \<open>0.0\<close>. The rounded value need not be the
  exact value of \<open>rated_power * (wind_speed - cut_in_wind_speed) /
  (rated_wind_speed - cut_in_wind_speed)\<close>.
\<close>

theorem linear_ramp_value_f64:
  assumes "is_float cut_in_wind_speed" and "is_float rated_wind_speed"
    and "fle cut_in_wind_speed wind_speed" and "flt wind_speed rated_wind_speed"
    and "flt wind_speed cut_out_wind_speed"
  shows "wind_turbine_power_f64 libm_pow wind_speed rated_power cut_in_wind_speed rated_wind_speed
           cut_out_wind_speed ''linear'' =
         Inr (fmul (fquot (fsub wind_speed cut_in_wind_speed)
                      (fsub rated_wind_speed cut_in_wind_speed)) rated_power) \<and>
         flt (Finite 0) (fsub rated_wind_speed cut_in_wind_speed)"
proof -
  have "flt cut_in_wind_speed rated_wind_speed"
    using assms(3,4) by (rule fle_flt_trans)
  then have pos: "flt (Finite 0) (fsub rated_wind_speed cut_in_wind_speed)"
    using assms(1,2) by (intro fsub_pos)
  then have "fsub rated_wind_speed cut_in_wind_speed \<noteq> Finite 0"
    by (rule flt_zero_ne)
  then have "ramp_branch_f64 libm_pow wind_speed rated_power cut_in_wind_speed rated_wind_speed
               ''linear'' =
             Inr (fmul (fquot (fsub wind_speed cut_in_wind_speed)
                      (fsub rated_wind_speed cut_in_wind_speed)) rated_power)"
    by (simp add: ramp_branch_f64_def g_v_linear_f64_def float_truediv_def)
  then show ?thesis
    using assms(3-5) pos by (simp add: wind_turbine_power_f64_ramp)
qed

theorem linear_ramp_value_f64_witness:
  "is_float (Finite 3) \<and> is_float (Finite 11) \<and> fle (Finite 3) (Finite 7) \<and>
   flt (Finite 7) (Finite 11) \<and> flt (Finite 7) (Finite 25) \<and>
   wind_turbine_power_f64 pow_nearest (Finite 7) (Finite 15) (Finite 3) (Finite 11)
     (Finite 25) ''linear'' = Inr (Finite (15 / 2)) \<and>
   fsub (Finite 11) (Finite 3) = Finite 8 \<and> flt (Finite 0) (Finite 8)"
proof -
  have h: "is_float (Finite 3)" "is_float (Finite 11)"
    by (simp_all add: is_double_numeral)
  have e: "fl (1 / 2) = Finite (1 / 2)" "fl (15 / 2) = Finite (15 / 2)"
    using fl_dyadic [of 1 1] fl_dyadic [of 15 1] by simp_all
  show ?thesis
    using linear_ramp_value_f64 [OF h, where wind_speed = "Finite 7"
        and cut_out_wind_speed = "Finite 25" and libm_pow = pow_nearest
        and rated_power = "Finite 15"] h e
    by (simp add: fl_numeral)
qed

text \<open>
  With the cut-out speed 4 below the rated speed 11, the wind speed 5 lies in
  \<open>[cut_in_wind_speed, rated_wind_speed)\<close> and the call returns \<open>0.0\<close>, not
  \<open>15 * (5 - 3) / (11 - 3)\<close>. With wind speed 1, rated power 49, cut-in speed 0, rated
  speed 49 and cut-out speed 100 the call returns \<open>(1 / 49) * 49\<close> in floats, which is
  \<open>0.9999999999999999\<close> (one unit in the last place below 1), not \<open>49 * (1 - 0) / (49 - 0)\<close>.
\<close>

theorem linear_ramp_f64_counterexample:
  "fle (Finite 3) (Finite 5) \<and> flt (Finite 5) (Finite 11) \<and>
   wind_turbine_power_f64 pow_nearest (Finite 5) (Finite 15) (Finite 3) (Finite 11)
     (Finite 4) ''linear'' = Inr (Finite 0) \<and>
   (15::real) * (5 - 3) / (11 - 3) \<noteq> 0 \<and>
   fle (Finite 0) (Finite 1) \<and> flt (Finite 1) (Finite 49) \<and> flt (Finite 1) (Finite 100) \<and>
   wind_turbine_power_f64 pow_nearest (Finite 1) (Finite 49) (Finite 0) (Finite 49)
     (Finite 100) ''linear'' = Inr (Finite (9007199254740991 / 2 ^ 53)) \<and>
   (9007199254740991::real) / 2 ^ 53 \<noteq> 49 * (1 - 0) / (49 - 0)"
proof -
  have q: "fl (1 / 49) = Finite (5882252574524729 / 2 ^ 58)"
    by (subst fl_eval [of "- 6"]) (simp_all add: rne_def power_int_minus e_min_def e_max_def)
  have m: "fl (5882252574524729 / 2 ^ 58 * 49) = Finite (9007199254740991 / 2 ^ 53)"
    by (subst fl_eval [of "- 1"]) (simp_all add: rne_def power_int_minus e_min_def e_max_def)
  show ?thesis
    using q m
    by (simp add: wind_turbine_power_f64_def ramp_branch_f64_def g_v_linear_f64_def
        float_truediv_def fge_def fl_numeral fl_1)
qed

text \<open>
  Where none of the four operations rounds, the float result is the exact value that
  \<open>wind_turbine_power\<close> computes.
\<close>

lemma linear_ramp_exact_f64:
  assumes "cut_in_wind_speed \<le> wind_speed" and "wind_speed < rated_wind_speed"
    and "flt (Finite wind_speed) cut_out_wind_speed"
    and "is_double (wind_speed - cut_in_wind_speed)"
    and "is_double (rated_wind_speed - cut_in_wind_speed)"
    and "is_double ((wind_speed - cut_in_wind_speed) / (rated_wind_speed - cut_in_wind_speed))"
    and "is_double ((wind_speed - cut_in_wind_speed) / (rated_wind_speed - cut_in_wind_speed)
           * rated_power)"
  shows "wind_turbine_power_f64 libm_pow (Finite wind_speed) (Finite rated_power)
           (Finite cut_in_wind_speed) (Finite rated_wind_speed) cut_out_wind_speed ''linear'' =
         Inr (Finite ((wind_speed - cut_in_wind_speed) / (rated_wind_speed - cut_in_wind_speed)
           * rated_power))"
proof -
  have ne: "rated_wind_speed - cut_in_wind_speed \<noteq> 0" using assms(1,2) by simp
  have "ramp_branch_f64 libm_pow (Finite wind_speed) (Finite rated_power)
           (Finite cut_in_wind_speed) (Finite rated_wind_speed) ''linear'' =
         Inr (Finite ((wind_speed - cut_in_wind_speed) / (rated_wind_speed - cut_in_wind_speed)
           * rated_power))"
    using assms(4-7) ne
    by (simp add: ramp_branch_f64_def g_v_linear_f64_def float_truediv_def is_double_def)
  moreover have "wind_turbine_power_f64 libm_pow (Finite wind_speed) (Finite rated_power)
           (Finite cut_in_wind_speed) (Finite rated_wind_speed) cut_out_wind_speed ''linear'' =
         ramp_branch_f64 libm_pow (Finite wind_speed) (Finite rated_power)
           (Finite cut_in_wind_speed) (Finite rated_wind_speed) ''linear''"
    using assms(1-3) by (intro wind_turbine_power_f64_ramp) simp_all
  ultimately show ?thesis by simp
qed

text \<open>
  Claim C4. With the option \<open>cubic\<close> and float arguments, a wind speed with
  \<open>cut_in_wind_speed \<le> wind_speed < rated_wind_speed\<close> that is also below the cut-out
  speed gives the un-normalised \<open>(wind_speed ** 3 / rated_wind_speed ** 3) * rated_power\<close>
  in float arithmetic, provided neither cube raises \<open>OverflowError\<close> and the float
  \<open>rated_wind_speed ** 3\<close> is not zero. This holds in particular at
  \<open>wind_speed = cut_in_wind_speed\<close>, where the value is not reset to zero: at the default
  parameters it is the float \<open>(27 / 1331) * 15\<close>.
\<close>

theorem cubic_ramp_value_f64:
  assumes "fle cut_in_wind_speed wind_speed" and "flt wind_speed rated_wind_speed"
    and "flt wind_speed cut_out_wind_speed"
    and "float_pow3 libm_pow wind_speed = Inr a" and "float_pow3 libm_pow rated_wind_speed = Inr b"
    and "b \<noteq> Finite 0"
  shows "wind_turbine_power_f64 libm_pow wind_speed rated_power cut_in_wind_speed rated_wind_speed
           cut_out_wind_speed ''cubic'' = Inr (fmul (fquot a b) rated_power)"
  using assms
  by (simp add: wind_turbine_power_f64_ramp ramp_branch_f64_def g_v_cubic_f64_def
      float_truediv_def)

theorem cubic_ramp_value_f64_witness:
  "fle (Finite 3) (Finite 3) \<and> flt (Finite 3) (Finite 11) \<and> flt (Finite 3) (Finite 25) \<and>
   float_pow3 pow_nearest (Finite 3) = Inr (Finite 27) \<and>
   float_pow3 pow_nearest (Finite 11) = Inr (Finite 1331) \<and> Finite 1331 \<noteq> Finite 0 \<and>
   wind_turbine_power_f64 pow_nearest (Finite 3) (Finite 15) (Finite 3) (Finite 11)
     (Finite 25) ''cubic'' = Inr (Finite (1370366528238205 / 2 ^ 52))"
proof -
  have p: "float_pow3 pow_nearest (Finite 3) = Inr (Finite 27)"
    "float_pow3 pow_nearest (Finite 11) = Inr (Finite 1331)"
    by (simp_all add: pow_nearest_numeral)
  have q: "fl (27 / 1331) = Finite (5846897187149675 / 2 ^ 58)"
    by (subst fl_eval [of "- 6"]) (simp_all add: rne_def power_int_minus e_min_def e_max_def)
  have m: "fl (5846897187149675 / 2 ^ 58 * 15) = Finite (1370366528238205 / 2 ^ 52)"
    by (subst fl_eval [of "- 2"]) (simp_all add: rne_def power_int_minus e_min_def e_max_def)
  show ?thesis
    using cubic_ramp_value_f64 [where wind_speed = "Finite 3"
        and cut_in_wind_speed = "Finite 3" and rated_wind_speed = "Finite 11"
        and cut_out_wind_speed = "Finite 25" and libm_pow = pow_nearest
        and rated_power = "Finite 15", OF _ _ _ p] p q m
    by simp
qed

text \<open>
  Inputs in \<open>[cut_in_wind_speed, rated_wind_speed)\<close> where the statement without the added
  conditions fails: a cut-out speed below the wind speed gives \<open>0.0\<close>; a rated speed of
  zero makes line 58 divide by zero; a cut-in speed of zero gives zero at the cut-in
  speed; the cut-in speed \<open>2 ^ - 400\<close> is not zero and gives zero at the cut-in speed,
  because its cube underflows; the rated speed \<open>2 ^ - 399\<close> is not zero and line 58
  divides by zero, because its cube underflows; the wind speed \<open>2 ^ 342\<close> makes line 58
  raise \<open>OverflowError\<close>.
\<close>

theorem cubic_ramp_f64_counterexample:
  "wind_turbine_power_f64 pow_nearest (Finite 5) (Finite 15) (Finite 3) (Finite 11)
     (Finite 4) ''cubic'' = Inr (Finite 0) \<and>
   (15::real) * 5 ^ 3 / 11 ^ 3 \<noteq> 0 \<and>
   wind_turbine_power_f64 pow_nearest (Finite (- 1)) (Finite 15) (Finite (- 2)) (Finite 0)
     (Finite 25) ''cubic'' = Inl ZeroDivisionError \<and>
   wind_turbine_power_f64 pow_nearest (Finite 0) (Finite 15) (Finite 0) (Finite 11)
     (Finite 25) ''cubic'' = Inr (Finite 0) \<and>
   wind_turbine_power_f64 pow_nearest (Finite (2 powi (- 400))) (Finite 15)
     (Finite (2 powi (- 400))) (Finite 11) (Finite 25) ''cubic'' = Inr (Finite 0) \<and>
   (2::real) powi (- 400) \<noteq> 0 \<and>
   wind_turbine_power_f64 pow_nearest (Finite (2 powi (- 400))) (Finite 15) (Finite 0)
     (Finite (2 powi (- 399))) (Finite 25) ''cubic'' = Inl ZeroDivisionError \<and>
   (2::real) powi (- 399) \<noteq> 0 \<and>
   wind_turbine_power_f64 pow_nearest (Finite (2 powi 342)) (Finite 15) (Finite 0)
     (Finite (2 powi 343)) (Finite (2 powi 345)) ''cubic'' = Inl OverflowError"
proof -
  have p: "float_pow3 pow_nearest (Finite (2 powi (- 400))) = Inr (Finite 0)"
    "float_pow3 pow_nearest (Finite (2 powi (- 399))) = Inr (Finite 0)"
    "float_pow3 pow_nearest (Finite (2 powi 342)) = Inl OverflowError"
    "float_pow3 pow_nearest (Finite 11) = Inr (Finite 1331)"
    by (simp_all only: float_pow3_pow2 pow_nearest_underflow pow_nearest_overflow)
      (simp_all add: pow_nearest_numeral)
  have c: "(2::real) powi (- 400) < 2 powi (- 399)" "(2::real) powi (- 400) < 11"
    "(2::real) powi (- 400) < 25" "(2::real) powi 342 < 2 powi 343"
    "(2::real) powi 342 < 2 powi 345" "(0::real) \<le> 2 powi 342" "(0::real) \<le> 2 powi (- 400)"
    using pow2_lt [of "- 400" "- 399"] pow2_lt_1 [of "- 400"] pow2_lt [of 342 343]
      pow2_lt [of 342 345]
    by simp_all
  have w1: "wind_turbine_power_f64 pow_nearest (Finite (2 powi (- 400))) (Finite 15)
     (Finite (2 powi (- 400))) (Finite 11) (Finite 25) ''cubic'' = Inr (Finite 0)"
    using p c(2,3)
    by (simp only: wind_turbine_power_f64_def ramp_branch_f64_def g_v_cubic_f64_def
        float_truediv_def fge_def flt.simps fle.simps)
      (simp add: fl_0)
  have w2: "wind_turbine_power_f64 pow_nearest (Finite (2 powi (- 400))) (Finite 15) (Finite 0)
     (Finite (2 powi (- 399))) (Finite 25) ''cubic'' = Inl ZeroDivisionError"
    using p c(1,3,7)
    by (simp only: wind_turbine_power_f64_def ramp_branch_f64_def g_v_cubic_f64_def
        float_truediv_def fge_def flt.simps fle.simps)
      simp
  have w3: "wind_turbine_power_f64 pow_nearest (Finite (2 powi 342)) (Finite 15) (Finite 0)
     (Finite (2 powi 343)) (Finite (2 powi 345)) ''cubic'' = Inl OverflowError"
    using p c(4,5,6)
    by (simp only: wind_turbine_power_f64_def ramp_branch_f64_def g_v_cubic_f64_def
        float_truediv_def fge_def flt.simps fle.simps)
      simp
  have w0: "wind_turbine_power_f64 pow_nearest (Finite 5) (Finite 15) (Finite 3) (Finite 11)
     (Finite 4) ''cubic'' = Inr (Finite 0)"
    "wind_turbine_power_f64 pow_nearest (Finite (- 1)) (Finite 15) (Finite (- 2)) (Finite 0)
     (Finite 25) ''cubic'' = Inl ZeroDivisionError"
    "wind_turbine_power_f64 pow_nearest (Finite 0) (Finite 15) (Finite 0) (Finite 11)
     (Finite 25) ''cubic'' = Inr (Finite 0)"
    using p(4)
    by (simp_all add: wind_turbine_power_f64_def ramp_branch_f64_def g_v_cubic_f64_def
        float_truediv_def fge_def fl_0)
  have "(15::real) * 5 ^ 3 / 11 ^ 3 \<noteq> 0" "(2::real) powi (- 400) \<noteq> 0"
    "(2::real) powi (- 399) \<noteq> 0"
    by simp_all
  with w0 w1 w2 w3 show ?thesis by (simp only: simp_thms)
qed

section \<open>The invalid interpolation option\<close>

text \<open>
  Claim C5. For every wind speed and all numeric parameters, the call fails with
  \<open>ValueError\<close> (the specification's InvalidArgument) if and only if
  \<open>interpolation_option\<close> is neither \<open>linear\<close> nor \<open>cubic\<close>. The test is the first
  statement of the function, so no numeric argument has any influence on it, and the
  error is the result of the call: nothing catches it or puts a default in its place.
\<close>

theorem invalid_option_iff:
  "wind_turbine_power wind_speed rated_power cut_in_wind_speed rated_wind_speed
     cut_out_wind_speed interpolation_option = Inl ValueError
   \<longleftrightarrow> interpolation_option \<notin> set [''linear'', ''cubic'']"
  by (auto simp add: wind_turbine_power_def ramp_branch_def g_v_linear_def g_v_cubic_def
      truediv_def)

theorem invalid_option_iff_witness:
  "''invalid'' \<notin> set [''linear'', ''cubic''] \<and>
   wind_turbine_power 5 15 3 11 25 ''invalid'' = Inl ValueError"
  using invalid_option_iff [of 5 15 3 11 25 "''invalid''"] by simp

text \<open>
  On floats an invalid option gives \<open>ValueError\<close> as well, and a valid one does not, as
  long as the C library call of \<open>**\<close> does not end in a \<open>ValueError\<close> itself (CPython
  raises \<open>ValueError\<close> there only for an \<open>errno\<close> other than a range error, which \<open>pow\<close>
  with a finite positive base and the exponent 3 does not set).
\<close>

lemma invalid_option_f64:
  assumes "interpolation_option \<notin> set [''linear'', ''cubic'']"
  shows "wind_turbine_power_f64 libm_pow wind_speed rated_power cut_in_wind_speed
           rated_wind_speed cut_out_wind_speed interpolation_option = Inl ValueError"
  using assms by (simp add: wind_turbine_power_f64_def)

lemma invalid_option_iff_f64:
  assumes "\<And>x. libm_pow x \<noteq> Inl ValueError"
  shows "wind_turbine_power_f64 libm_pow wind_speed rated_power cut_in_wind_speed
           rated_wind_speed cut_out_wind_speed interpolation_option = Inl ValueError
         \<longleftrightarrow> interpolation_option \<notin> set [''linear'', ''cubic'']"
  using float_pow3_no_value_error [OF assms, where a = wind_speed]
    float_pow3_no_value_error [OF assms, where a = rated_wind_speed]
  by (auto simp add: wind_turbine_power_f64_def ramp_branch_f64_def g_v_linear_f64_def
      g_v_cubic_f64_def float_truediv_def split: sum.splits)

section \<open>Shape of the curve\<close>

text \<open>
  Claim C6. With the option \<open>linear\<close>, float parameters with
  \<open>cut_in_wind_speed < rated_wind_speed\<close> and \<open>rated_power > 0\<close>, and a difference
  \<open>rated_wind_speed - cut_in_wind_speed\<close> that does not overflow, the result does not
  decrease on the part of \<open>[cut_in_wind_speed, rated_wind_speed)\<close> below the cut-out
  speed: for \<open>cut_in_wind_speed \<le> v1 < v2 < rated_wind_speed\<close> with
  \<open>v2 < cut_out_wind_speed\<close> the results are finite floats and the result at \<open>v1\<close> is at
  most the result at \<open>v2\<close>. The interpolation of lines 52 and 59 evaluated at
  \<open>wind_speed = rated_wind_speed\<close> gives exactly \<open>rated_power\<close>.
\<close>

theorem linear_nondecreasing_f64:
  assumes "is_double cut_in_wind_speed" and "is_double rated_wind_speed"
    and "is_double rated_power"
    and "cut_in_wind_speed < rated_wind_speed" and "0 < rated_power"
    and "cut_in_wind_speed \<le> v1" and "v1 < v2" and "v2 < rated_wind_speed"
    and "flt (Finite v2) cut_out_wind_speed"
    and "fsub (Finite rated_wind_speed) (Finite cut_in_wind_speed) \<noteq> PInf"
  shows "(\<exists>p1 p2.
            wind_turbine_power_f64 libm_pow (Finite v1) (Finite rated_power)
              (Finite cut_in_wind_speed) (Finite rated_wind_speed) cut_out_wind_speed
              ''linear'' = Inr (Finite p1) \<and>
            wind_turbine_power_f64 libm_pow (Finite v2) (Finite rated_power)
              (Finite cut_in_wind_speed) (Finite rated_wind_speed) cut_out_wind_speed
              ''linear'' = Inr (Finite p2) \<and> p1 \<le> p2) \<and>
         ramp_branch_f64 libm_pow (Finite rated_wind_speed) (Finite rated_power)
           (Finite cut_in_wind_speed) (Finite rated_wind_speed) ''linear'' =
           Inr (Finite rated_power)"
proof -
  define c where "c = cut_in_wind_speed"
  define r where "r = rated_wind_speed"
  define d where "d = rnd (r - c)"
  define g where "g = (\<lambda>v. rnd (rnd (v - c) / d))"
  note dbl = assms(1,2) [folded c_def r_def]
  note fin = assms(10) [folded c_def r_def]
  have cr: "c < r" using assms(4) by (simp add: c_def r_def)
  have frac: "g_v_linear_f64 (Finite v) (Finite c) (Finite r) = Inr (Finite (g v)) \<and>
              0 \<le> g v \<and> g v \<le> 1 \<and> 0 < d"
    if "c \<le> v" "v \<le> r" for v
    using g_v_linear_f64_fraction [OF dbl that cr fin] by (simp add: g_def d_def)
  have res: "\<exists>q. wind_turbine_power_f64 libm_pow (Finite v) (Finite rated_power) (Finite c)
               (Finite r) cut_out_wind_speed ''linear'' = Inr (Finite q) \<and>
             q = rnd (g v * rated_power)"
    if v: "c \<le> v" "v < r" and co: "flt (Finite v) cut_out_wind_speed" for v
  proof -
    from v have "v \<le> r" by simp
    note f = frac [OF v(1) this]
    from f assms(3,5) fmul_fraction [of rated_power "g v"]
    obtain q where "fmul (Finite (g v)) (Finite rated_power) = Finite q"
      and "q = rnd (g v * rated_power)" by auto
    with f have "ramp_branch_f64 libm_pow (Finite v) (Finite rated_power) (Finite c)
           (Finite r) ''linear'' = Inr (Finite q)"
      by (simp add: ramp_branch_f64_def)
    moreover have "wind_turbine_power_f64 libm_pow (Finite v) (Finite rated_power) (Finite c)
               (Finite r) cut_out_wind_speed ''linear'' =
           ramp_branch_f64 libm_pow (Finite v) (Finite rated_power) (Finite c)
           (Finite r) ''linear''"
      using v co by (intro wind_turbine_power_f64_ramp) simp_all
    ultimately show ?thesis using \<open>q = rnd (g v * rated_power)\<close> by simp
  qed
  have v1: "c \<le> v1" "v1 < r" and v2: "c \<le> v2" "v2 < r"
    using assms(6-8) by (simp_all add: c_def r_def)
  have "flt (Finite v1) (Finite v2)" using assms(7) by simp
  then have co1: "flt (Finite v1) cut_out_wind_speed"
    using assms(9) by (rule flt_trans)
  from res [OF v1 co1] res [OF v2 assms(9)]
  obtain p1 p2 where p1: "wind_turbine_power_f64 libm_pow (Finite v1) (Finite rated_power)
        (Finite c) (Finite r) cut_out_wind_speed ''linear'' = Inr (Finite p1)"
      "p1 = rnd (g v1 * rated_power)"
    and p2: "wind_turbine_power_f64 libm_pow (Finite v2) (Finite rated_power)
        (Finite c) (Finite r) cut_out_wind_speed ''linear'' = Inr (Finite p2)"
      "p2 = rnd (g v2 * rated_power)"
    by blast
  have dpos: "0 < d" using frac [of v1] v1 by simp
  have "rnd (v1 - c) \<le> rnd (v2 - c)" using assms(7) by (intro rnd_mono) simp
  then have "rnd (v1 - c) / d \<le> rnd (v2 - c) / d"
    using dpos by (simp add: divide_right_mono)
  then have "g v1 \<le> g v2" unfolding g_def by (rule rnd_mono)
  then have "g v1 * rated_power \<le> g v2 * rated_power"
    using assms(5) by (intro mult_right_mono) simp_all
  then have le: "p1 \<le> p2" unfolding p1(2) p2(2) by (rule rnd_mono)
  have "d / d = 1" using dpos by simp
  then have "g r = 1"
    using is_double_rnd [OF is_double_1] by (simp add: g_def d_def)
  with frac [of r] cr have "g_v_linear_f64 (Finite r) (Finite c) (Finite r) = Inr (Finite 1)"
    by simp
  then have "ramp_branch_f64 libm_pow (Finite r) (Finite rated_power) (Finite c) (Finite r)
               ''linear'' = Inr (Finite rated_power)"
    using fmul_one [OF assms(3)] by (simp add: ramp_branch_f64_def)
  with p1(1) p2(1) le show ?thesis unfolding c_def r_def by blast
qed

theorem linear_nondecreasing_f64_witness:
  "is_double 3 \<and> is_double 11 \<and> is_double 15 \<and> (3::real) < 11 \<and> (0::real) < 15 \<and>
   (3::real) \<le> 4 \<and> (4::real) < 6 \<and> (6::real) < 11 \<and> flt (Finite 6) (Finite 25) \<and>
   fsub (Finite 11) (Finite 3) \<noteq> PInf \<and>
   (\<exists>p1 p2.
      wind_turbine_power_f64 pow_nearest (Finite 4) (Finite 15) (Finite 3) (Finite 11)
        (Finite 25) ''linear'' = Inr (Finite p1) \<and>
      wind_turbine_power_f64 pow_nearest (Finite 6) (Finite 15) (Finite 3) (Finite 11)
        (Finite 25) ''linear'' = Inr (Finite p2) \<and> p1 \<le> p2) \<and>
   ramp_branch_f64 pow_nearest (Finite 11) (Finite 15) (Finite 3) (Finite 11) ''linear'' =
     Inr (Finite 15)"
proof -
  have d: "is_double 3" "is_double 11" "is_double 15"
    by (simp_all add: is_double_numeral)
  have f: "fsub (Finite 11) (Finite 3) \<noteq> PInf" by (simp add: fl_numeral)
  show ?thesis
    using linear_nondecreasing_f64 [OF d, where ?v1.0 = 4 and ?v2.0 = 6
        and cut_out_wind_speed = "Finite 25" and libm_pow = pow_nearest] d f
    by simp
qed

text \<open>
  With the cut-out speed 5 inside \<open>[3, 11)\<close>, the wind speeds \<open>4 < 6\<close> of that interval
  give \<open>15 / 8\<close> and then \<open>0.0\<close>: the result falls. At the default parameters the
  neighbouring floats \<open>7.562244561961442\<close> and \<open>7.5622445619614425\<close> both give
  \<open>8.554208553677704\<close>: the result does not rise. With cut-in speed \<open>- 2 ^ 1023\<close> and rated
  speed \<open>2 ^ 1023\<close> their difference overflows, and the interpolation at the rated speed
  gives NaN, not the rated power.
\<close>

lemma linear_tie_at_defaults:
  "wind_turbine_power_f64 pow_nearest (Finite 4) (Finite 15) (Finite 3) (Finite 11)
     (Finite 5) ''linear'' = Inr (Finite (15 / 8)) \<and>
   wind_turbine_power_f64 pow_nearest (Finite 6) (Finite 15) (Finite 3) (Finite 11)
     (Finite 5) ''linear'' = Inr (Finite 0) \<and>
   \<not> ((15::real) / 8 < 0) \<and>
   (8514330447833527::real) / 2 ^ 50 < 1064291305979191 / 2 ^ 47 \<and>
   (1064291305979191::real) / 2 ^ 47 < 11 \<and>
   wind_turbine_power_f64 pow_nearest (Finite (8514330447833527 / 2 ^ 50)) (Finite 15)
     (Finite 3) (Finite 11) (Finite 25) ''linear'' =
     Inr (Finite (1203897826712263 / 2 ^ 47)) \<and>
   wind_turbine_power_f64 pow_nearest (Finite (1064291305979191 / 2 ^ 47)) (Finite 15)
     (Finite 3) (Finite 11) (Finite 25) ''linear'' =
     Inr (Finite (1203897826712263 / 2 ^ 47))"
proof -
  have e: "fl (1 / 8) = Finite (1 / 8)" "fl (15 / 8) = Finite (15 / 8)"
    using fl_dyadic [of 1 3] fl_dyadic [of 15 3] by simp_all
  have s1: "fl (5136630727305655 / 2 ^ 50) = Finite (5136630727305655 / 2 ^ 50)"
    and q1: "fl (5136630727305655 / 2 ^ 53) = Finite (5136630727305655 / 2 ^ 53)"
    and s2: "fl (642078840913207 / 2 ^ 47) = Finite (642078840913207 / 2 ^ 47)"
    and q2: "fl (642078840913207 / 2 ^ 50) = Finite (642078840913207 / 2 ^ 50)"
    using fl_dyadic [of 5136630727305655 50] fl_dyadic [of 5136630727305655 53]
      fl_dyadic [of 642078840913207 47] fl_dyadic [of 642078840913207 50]
    by simp_all
  have m1: "fl (5136630727305655 / 2 ^ 53 * 15) = Finite (1203897826712263 / 2 ^ 47)"
    by (subst fl_eval [of 3]) (simp_all add: rne_def power_int_minus e_min_def e_max_def)
  have m2: "fl (642078840913207 / 2 ^ 50 * 15) = Finite (1203897826712263 / 2 ^ 47)"
    by (subst fl_eval [of 3]) (simp_all add: rne_def power_int_minus e_min_def e_max_def)
  show ?thesis
    using e s1 q1 s2 q2 m1 m2
    by (simp add: wind_turbine_power_f64_def ramp_branch_f64_def g_v_linear_f64_def
        float_truediv_def fge_def fl_numeral fl_1)
qed

lemma linear_overflow_at_rated:
  "(- (2 powi 1023) :: real) < 2 powi 1023 \<and> (0::real) < 15 \<and>
   ramp_branch_f64 pow_nearest (Finite (2 powi 1023)) (Finite 15) (Finite (- (2 powi 1023)))
     (Finite (2 powi 1023)) ''linear'' = Inr NaN"
proof -
  have "(2::real) powi 1023 + 2 powi 1023 = 2 powi e_max"
    using power_int_add [of "2::real" 1 1023]
    by (simp add: e_max_def del: power_int_numeral)
  then have "fl (2 powi 1023 - - (2 powi 1023)) = PInf"
    by (intro fl_overflow) simp
  then have s: "fsub (Finite (2 powi 1023)) (Finite (- (2 powi 1023))) = PInf"
    by (simp only: fsub.simps)
  have "(0::real) < 2 powi 1023" by simp
  then have "(- (2 powi 1023) :: real) < 2 powi 1023" by linarith
  moreover have "g_v_linear_f64 (Finite (2 powi 1023)) (Finite (- (2 powi 1023)))
      (Finite (2 powi 1023)) = Inr NaN"
    unfolding g_v_linear_f64_def s float_truediv_def by simp
  then have "ramp_branch_f64 pow_nearest (Finite (2 powi 1023)) (Finite 15)
      (Finite (- (2 powi 1023))) (Finite (2 powi 1023)) ''linear'' = Inr NaN"
    unfolding ramp_branch_f64_def by simp
  ultimately show ?thesis by simp
qed

theorem linear_not_strictly_increasing_counterexample:
  "(wind_turbine_power_f64 pow_nearest (Finite 4) (Finite 15) (Finite 3) (Finite 11)
     (Finite 5) ''linear'' = Inr (Finite (15 / 8)) \<and>
   wind_turbine_power_f64 pow_nearest (Finite 6) (Finite 15) (Finite 3) (Finite 11)
     (Finite 5) ''linear'' = Inr (Finite 0) \<and>
   \<not> ((15::real) / 8 < 0) \<and>
   (8514330447833527::real) / 2 ^ 50 < 1064291305979191 / 2 ^ 47 \<and>
   (1064291305979191::real) / 2 ^ 47 < 11 \<and>
   wind_turbine_power_f64 pow_nearest (Finite (8514330447833527 / 2 ^ 50)) (Finite 15)
     (Finite 3) (Finite 11) (Finite 25) ''linear'' =
     Inr (Finite (1203897826712263 / 2 ^ 47)) \<and>
   wind_turbine_power_f64 pow_nearest (Finite (1064291305979191 / 2 ^ 47)) (Finite 15)
     (Finite 3) (Finite 11) (Finite 25) ''linear'' =
     Inr (Finite (1203897826712263 / 2 ^ 47))) \<and>
   ((- (2 powi 1023) :: real) < 2 powi 1023 \<and> (0::real) < 15 \<and>
   ramp_branch_f64 pow_nearest (Finite (2 powi 1023)) (Finite 15) (Finite (- (2 powi 1023)))
     (Finite (2 powi 1023)) ''linear'' = Inr NaN)"
  by (rule conjI) (rule linear_tie_at_defaults, rule linear_overflow_at_rated)






section \<open>The default parameters\<close>

text \<open>
  Claim C8. With the defaults \<open>rated_power = 15\<close>, \<open>cut_in_wind_speed = 3\<close>,
  \<open>rated_wind_speed = 11\<close> and \<open>cut_out_wind_speed = 25\<close>: wind speed 7 gives \<open>7.5\<close> with
  \<open>linear\<close> and \<open>15 * 343 / 1331\<close> with \<open>cubic\<close>; with \<open>linear\<close>, wind speed 2 gives
  \<open>0.0\<close>, wind speed 11 gives \<open>15.0\<close> and wind speed 26 gives \<open>0.0\<close>.
\<close>

theorem default_scenarios:
  "wind_turbine_power_default 7 ''linear'' = Inr 7.5 \<and>
   wind_turbine_power_default 7 ''cubic'' = Inr (15 * 343 / 1331) \<and>
   wind_turbine_power_default 2 ''linear'' = Inr 0 \<and>
   wind_turbine_power_default 11 ''linear'' = Inr 15 \<and>
   wind_turbine_power_default 26 ''linear'' = Inr 0"
  by (simp add: wind_turbine_power_default_def wind_turbine_power_def ramp_branch_def
      g_v_linear_def g_v_cubic_def truediv_def)

text \<open>
  The same five calls on floats. At wind speed 7 with \<open>cubic\<close> the call returns the float
  \<open>(343 / 1331) * 15\<close>, which is \<open>3.8655146506386178\<close>; the float value of the expression
  \<open>15.0 * 343 / 1331\<close> is the same float.
\<close>

lemma default_scenarios_f64:
  "wind_turbine_power_f64 pow_nearest (Finite 7) (Finite 15) (Finite 3) (Finite 11)
     (Finite 25) ''linear'' = Inr (Finite (15 / 2))"
  "wind_turbine_power_f64 pow_nearest (Finite 7) (Finite 15) (Finite 3) (Finite 11)
     (Finite 25) ''cubic'' = Inr (Finite (2176091292526409 / 2 ^ 49))"
  "fquot (fmul (Finite 15) (Finite 343)) (Finite 1331) = Finite (2176091292526409 / 2 ^ 49)"
  "wind_turbine_power_f64 pow_nearest (Finite 2) (Finite 15) (Finite 3) (Finite 11)
     (Finite 25) ''linear'' = Inr (Finite 0)"
  "wind_turbine_power_f64 pow_nearest (Finite 11) (Finite 15) (Finite 3) (Finite 11)
     (Finite 25) ''linear'' = Inr (Finite 15)"
  "wind_turbine_power_f64 pow_nearest (Finite 26) (Finite 15) (Finite 3) (Finite 11)
     (Finite 25) ''linear'' = Inr (Finite 0)"
proof -
  have e: "fl (1 / 2) = Finite (1 / 2)" "fl (15 / 2) = Finite (15 / 2)"
    using fl_dyadic [of 1 1] fl_dyadic [of 15 1] by simp_all
  have p: "float_pow3 pow_nearest (Finite 7) = Inr (Finite 343)"
    "float_pow3 pow_nearest (Finite 11) = Inr (Finite 1331)"
    by (simp_all add: pow_nearest_numeral)
  have q: "fl (343 / 1331) = Finite (2321164045361503 / 2 ^ 53)"
    by (subst fl_eval [of "- 2"]) (simp_all add: rne_def power_int_minus e_min_def e_max_def)
  have m: "fl (2321164045361503 / 2 ^ 53 * 15) = Finite (2176091292526409 / 2 ^ 49)"
    by (subst fl_eval [of 1]) (simp_all add: rne_def power_int_minus e_min_def e_max_def)
  have n: "fl (5145 / 1331) = Finite (2176091292526409 / 2 ^ 49)"
    by (subst fl_eval [of 1]) (simp_all add: rne_def power_int_minus e_min_def e_max_def)
  show "wind_turbine_power_f64 pow_nearest (Finite 7) (Finite 15) (Finite 3) (Finite 11)
     (Finite 25) ''linear'' = Inr (Finite (15 / 2))"
    using e
    by (simp add: wind_turbine_power_f64_def ramp_branch_f64_def g_v_linear_f64_def
        float_truediv_def fge_def fl_numeral)
  show "wind_turbine_power_f64 pow_nearest (Finite 7) (Finite 15) (Finite 3) (Finite 11)
     (Finite 25) ''cubic'' = Inr (Finite (2176091292526409 / 2 ^ 49))"
    using p q m
    by (simp add: wind_turbine_power_f64_def ramp_branch_f64_def g_v_cubic_f64_def
        float_truediv_def fge_def)
  show "fquot (fmul (Finite 15) (Finite 343)) (Finite 1331) =
      Finite (2176091292526409 / 2 ^ 49)"
    using n by (simp add: fl_numeral)
  show "wind_turbine_power_f64 pow_nearest (Finite 2) (Finite 15) (Finite 3) (Finite 11)
     (Finite 25) ''linear'' = Inr (Finite 0)"
    "wind_turbine_power_f64 pow_nearest (Finite 11) (Finite 15) (Finite 3) (Finite 11)
     (Finite 25) ''linear'' = Inr (Finite 15)"
    "wind_turbine_power_f64 pow_nearest (Finite 26) (Finite 15) (Finite 3) (Finite 11)
     (Finite 25) ''linear'' = Inr (Finite 0)"
    by (simp_all add: wind_turbine_power_f64_def fge_def)
qed

section \<open>Division by zero and the range of the result\<close>

text \<open>
  Claim C9. With a valid interpolation option and float arguments, the call returns a
  float and raises nothing, also when the ordering
  \<open>cut_in_wind_speed < rated_wind_speed < cut_out_wind_speed\<close> is violated, in each of
  these cases: the option is \<open>linear\<close>; the ramp branch is not reached; both cubes of
  line 58 are computed without \<open>OverflowError\<close> and the float \<open>rated_wind_speed ** 3\<close> is
  not zero. The division of the linear branch, by
  \<open>rated_wind_speed - cut_in_wind_speed\<close>, is reached only under
  \<open>cut_in_wind_speed \<le> wind_speed < rated_wind_speed\<close>, where the divisor is strictly
  positive (or infinite). The function has a second division, by
  \<open>rated_wind_speed ** 3\<close> in the cubic branch (line 58). The float returned can be NaN
  or infinite when a subtraction overflows.
\<close>

theorem returns_a_number_f64:
  assumes "interpolation_option \<in> set [''linear'', ''cubic'']"
    and "is_float cut_in_wind_speed" and "is_float rated_wind_speed"
    and "interpolation_option = ''linear'' \<or>
         \<not> (fle cut_in_wind_speed wind_speed \<and> flt wind_speed rated_wind_speed) \<or>
         fge wind_speed cut_out_wind_speed \<or>
         (\<exists>a b. float_pow3 libm_pow wind_speed = Inr a \<and>
                float_pow3 libm_pow rated_wind_speed = Inr b \<and> b \<noteq> Finite 0)"
  shows "(\<exists>p. wind_turbine_power_f64 libm_pow wind_speed rated_power cut_in_wind_speed
               rated_wind_speed cut_out_wind_speed interpolation_option = Inr p) \<and>
         (fle cut_in_wind_speed wind_speed \<and> flt wind_speed rated_wind_speed \<longrightarrow>
            flt (Finite 0) (fsub rated_wind_speed cut_in_wind_speed) \<and>
            g_v_linear_f64 wind_speed cut_in_wind_speed rated_wind_speed =
              Inr (fquot (fsub wind_speed cut_in_wind_speed)
                     (fsub rated_wind_speed cut_in_wind_speed)))"
proof -
  have lin: "flt (Finite 0) (fsub rated_wind_speed cut_in_wind_speed) \<and>
            g_v_linear_f64 wind_speed cut_in_wind_speed rated_wind_speed =
              Inr (fquot (fsub wind_speed cut_in_wind_speed)
                     (fsub rated_wind_speed cut_in_wind_speed))"
    if "fle cut_in_wind_speed wind_speed" "flt wind_speed rated_wind_speed"
  proof -
    from that have "flt cut_in_wind_speed rated_wind_speed" by (rule fle_flt_trans)
    with assms(2,3) have pos: "flt (Finite 0) (fsub rated_wind_speed cut_in_wind_speed)"
      by (intro fsub_pos)
    then have "fsub rated_wind_speed cut_in_wind_speed \<noteq> Finite 0" by (rule flt_zero_ne)
    with pos show ?thesis by (simp add: g_v_linear_f64_def float_truediv_def)
  qed
  have "\<exists>p. wind_turbine_power_f64 libm_pow wind_speed rated_power cut_in_wind_speed
               rated_wind_speed cut_out_wind_speed interpolation_option = Inr p"
  proof (cases "interpolation_option = ''linear''")
    case True
    then show ?thesis
      using lin by (auto simp add: wind_turbine_power_f64_def ramp_branch_f64_def)
  next
    case False
    with assms(1) have c: "interpolation_option = ''cubic''" by simp
    show ?thesis
      using assms(4) False unfolding c
      by (auto simp add: wind_turbine_power_f64_def ramp_branch_f64_def g_v_cubic_f64_def
          float_truediv_def)
  qed
  with lin show ?thesis by blast
qed

theorem returns_a_number_f64_witness:
  "''linear'' \<in> set [''linear'', ''cubic''] \<and> is_float (Finite 3) \<and> is_float (Finite 11) \<and>
   fle (Finite 3) (Finite 7) \<and> flt (Finite 7) (Finite 11) \<and>
   (\<exists>p. wind_turbine_power_f64 pow_nearest (Finite 7) (Finite 15) (Finite 3) (Finite 11)
         (Finite 8) ''linear'' = Inr p) \<and>
   flt (Finite 0) (fsub (Finite 11) (Finite 3)) \<and>
   g_v_linear_f64 (Finite 7) (Finite 3) (Finite 11) = Inr (Finite (1 / 2)) \<and>
   ''cubic'' \<in> set [''linear'', ''cubic''] \<and>
   float_pow3 pow_nearest (Finite 7) = Inr (Finite 343) \<and>
   float_pow3 pow_nearest (Finite 11) = Inr (Finite 1331) \<and> Finite 1331 \<noteq> Finite 0 \<and>
   (\<exists>p. wind_turbine_power_f64 pow_nearest (Finite 7) (Finite 15) (Finite 3) (Finite 11)
         (Finite 8) ''cubic'' = Inr p)"
proof -
  have h: "is_float (Finite 3)" "is_float (Finite 11)"
    by (simp_all add: is_double_numeral)
  have e: "fl (1 / 2) = Finite (1 / 2)"
    using fl_dyadic [of 1 1] by simp
  have p: "float_pow3 pow_nearest (Finite 7) = Inr (Finite 343)"
    "float_pow3 pow_nearest (Finite 11) = Inr (Finite 1331)"
    by (simp_all add: pow_nearest_numeral)
  have lin: "(\<exists>p. wind_turbine_power_f64 pow_nearest (Finite 7) (Finite 15) (Finite 3)
         (Finite 11) (Finite 8) ''linear'' = Inr p) \<and>
      flt (Finite 0) (fsub (Finite 11) (Finite 3)) \<and>
      g_v_linear_f64 (Finite 7) (Finite 3) (Finite 11) = Inr (Finite (1 / 2))"
    using returns_a_number_f64 [OF _ h, where interpolation_option = "''linear''"
        and wind_speed = "Finite 7" and cut_out_wind_speed = "Finite 8"
        and libm_pow = pow_nearest and rated_power = "Finite 15"] e
    by (simp add: fl_numeral)
  have cub: "\<exists>p. wind_turbine_power_f64 pow_nearest (Finite 7) (Finite 15) (Finite 3)
         (Finite 11) (Finite 8) ''cubic'' = Inr p"
    using returns_a_number_f64 [OF _ h, where interpolation_option = "''cubic''"
        and wind_speed = "Finite 7" and cut_out_wind_speed = "Finite 8"
        and libm_pow = pow_nearest and rated_power = "Finite 15"] p
    by simp
  from lin cub h p show ?thesis by simp
qed

text \<open>
  With the option \<open>cubic\<close>, rated speed 0, cut-in speed \<open>- 2\<close> and wind speed \<open>- 1\<close>, line 58
  divides by \<open>0 ** 3\<close>. With cut-in speed 0, wind speed \<open>2 ^ - 500\<close> and rated speed
  \<open>2 ^ - 450\<close>, which is not zero, the cube of the rated speed underflows to zero and
  line 58 divides by zero. With wind speed \<open>2 ^ 400\<close> line 58 raises \<open>OverflowError\<close>.
\<close>

theorem cubic_zero_division_counterexample:
  "''cubic'' \<in> set [''linear'', ''cubic''] \<and>
   wind_turbine_power_f64 pow_nearest (Finite (- 1)) (Finite 15) (Finite (- 2)) (Finite 0)
     (Finite 25) ''cubic'' = Inl ZeroDivisionError \<and>
   (2::real) powi (- 450) \<noteq> 0 \<and>
   wind_turbine_power_f64 pow_nearest (Finite (2 powi (- 500))) (Finite 15) (Finite 0)
     (Finite (2 powi (- 450))) (Finite 25) ''cubic'' = Inl ZeroDivisionError \<and>
   wind_turbine_power_f64 pow_nearest (Finite (2 powi 400)) (Finite 15) (Finite 0)
     (Finite (2 powi 401)) (Finite (2 powi 402)) ''cubic'' = Inl OverflowError"
proof -
  have p: "float_pow3 pow_nearest (Finite (2 powi (- 500))) = Inr (Finite 0)"
    "float_pow3 pow_nearest (Finite (2 powi (- 450))) = Inr (Finite 0)"
    "float_pow3 pow_nearest (Finite (2 powi 400)) = Inl OverflowError"
    by (simp_all only: float_pow3_pow2 pow_nearest_underflow pow_nearest_overflow)
  have c: "(2::real) powi (- 500) < 2 powi (- 450)" "(2::real) powi (- 500) < 25"
    "(2::real) powi 400 < 2 powi 401" "(2::real) powi 400 < 2 powi 402"
    "(0::real) \<le> 2 powi 400" "(0::real) \<le> 2 powi (- 500)"
    using pow2_lt [of "- 500" "- 450"] pow2_lt_1 [of "- 500"] pow2_lt [of 400 401]
      pow2_lt [of 400 402]
    by simp_all
  have w2: "wind_turbine_power_f64 pow_nearest (Finite (2 powi (- 500))) (Finite 15) (Finite 0)
     (Finite (2 powi (- 450))) (Finite 25) ''cubic'' = Inl ZeroDivisionError"
    using p c(1,2,6)
    by (simp only: wind_turbine_power_f64_def ramp_branch_f64_def g_v_cubic_f64_def
        float_truediv_def fge_def flt.simps fle.simps)
      simp
  have w3: "wind_turbine_power_f64 pow_nearest (Finite (2 powi 400)) (Finite 15) (Finite 0)
     (Finite (2 powi 401)) (Finite (2 powi 402)) ''cubic'' = Inl OverflowError"
    using p c(3,4,5)
    by (simp only: wind_turbine_power_f64_def ramp_branch_f64_def g_v_cubic_f64_def
        float_truediv_def fge_def flt.simps fle.simps)
      simp
  have w0: "wind_turbine_power_f64 pow_nearest (Finite (- 1)) (Finite 15) (Finite (- 2)) (Finite 0)
     (Finite 25) ''cubic'' = Inl ZeroDivisionError"
    by (simp add: wind_turbine_power_f64_def ramp_branch_f64_def g_v_cubic_f64_def
        float_truediv_def fge_def)
  have "(2::real) powi (- 450) \<noteq> 0" "''cubic'' \<in> set [''linear'', ''cubic'']" by simp_all
  with w0 w2 w3 show ?thesis by (simp only: simp_thms)
qed

text \<open>
  Claim C10. With a valid interpolation option, float parameters with \<open>rated_power > 0\<close>
  and \<open>0 \<le> cut_in_wind_speed < rated_wind_speed\<close>, any float wind speed and any float
  cut-out speed, the call returns a finite float in the closed interval
  \<open>[0, rated_power]\<close>, provided that the option is \<open>linear\<close>, or that the ramp branch
  is not reached, or that the two cubes of line 58 are computed with
  \<open>0 \<le> wind_speed ** 3 \<le> rated_wind_speed ** 3\<close> and \<open>rated_wind_speed ** 3\<close> is not
  zero.
\<close>

theorem power_within_bounds_f64:
  assumes "interpolation_option \<in> set [''linear'', ''cubic'']"
    and "is_double rated_power" and "is_double cut_in_wind_speed"
    and "is_double rated_wind_speed"
    and "0 < rated_power" and "0 \<le> cut_in_wind_speed"
    and "cut_in_wind_speed < rated_wind_speed"
    and "interpolation_option = ''linear'' \<or>
         \<not> (fle (Finite cut_in_wind_speed) wind_speed \<and>
            flt wind_speed (Finite rated_wind_speed)) \<or>
         fge wind_speed cut_out_wind_speed \<or>
         (\<exists>a b. float_pow3 libm_pow wind_speed = Inr (Finite a) \<and>
                float_pow3 libm_pow (Finite rated_wind_speed) = Inr (Finite b) \<and>
                0 \<le> a \<and> a \<le> b \<and> b \<noteq> 0)"
  shows "\<exists>p. wind_turbine_power_f64 libm_pow wind_speed (Finite rated_power)
              (Finite cut_in_wind_speed) (Finite rated_wind_speed) cut_out_wind_speed
              interpolation_option = Inr (Finite p) \<and> 0 \<le> p \<and> p \<le> rated_power"
proof -
  let ?res = "wind_turbine_power_f64 libm_pow wind_speed (Finite rated_power)
              (Finite cut_in_wind_speed) (Finite rated_wind_speed) cut_out_wind_speed
              interpolation_option"
  let ?idle = "flt wind_speed (Finite cut_in_wind_speed) \<or> fge wind_speed cut_out_wind_speed"
  let ?ramp = "fle (Finite cut_in_wind_speed) wind_speed \<and>
               flt wind_speed (Finite rated_wind_speed)"
  have rp: "0 \<le> rated_power" using assms(5) by simp
  consider (idle) ?idle | (plateau) "\<not> ?idle" "\<not> ?ramp" | (ramp) "\<not> ?idle" ?ramp
    by blast
  then show ?thesis
  proof cases
    case idle
    then have "?res = Inr (Finite 0)" using assms(1) by (simp add: wind_turbine_power_f64_def)
    then show ?thesis using rp by simp
  next
    case plateau
    then have "?res = Inr (Finite rated_power)"
      using assms(1) by (auto simp add: wind_turbine_power_f64_def)
    then show ?thesis using rp by simp
  next
    case ramp
    then obtain v where v: "wind_speed = Finite v" by (cases wind_speed) simp_all
    with ramp have vr: "cut_in_wind_speed \<le> v" "v < rated_wind_speed" by simp_all
    have res: "?res = ramp_branch_f64 libm_pow wind_speed (Finite rated_power)
              (Finite cut_in_wind_speed) (Finite rated_wind_speed) interpolation_option"
      using ramp assms(1) by (simp add: wind_turbine_power_f64_def)
    show ?thesis
    proof (cases "interpolation_option = ''linear''")
      case True
      have "fsub (Finite rated_wind_speed) (Finite cut_in_wind_speed) \<noteq> PInf"
        using assms(3,4,6,7) by (intro fsub_no_overflow) simp_all
      from ramp_branch_f64_linear_bounds [OF assms(2) rp assms(3,4) vr this, of libm_pow]
      obtain p where p: "ramp_branch_f64 libm_pow (Finite v) (Finite rated_power)
          (Finite cut_in_wind_speed) (Finite rated_wind_speed) ''linear'' = Inr (Finite p)"
        "0 \<le> p" "p \<le> rated_power" by blast
      have "?res = Inr (Finite p)" using res p(1) v True by simp
      with p(2,3) show ?thesis by simp
    next
      case False
      with assms(1) have c: "interpolation_option = ''cubic''" by simp
      from False assms(8) ramp obtain a b
        where "float_pow3 libm_pow (Finite v) = Inr (Finite a)"
          "float_pow3 libm_pow (Finite rated_wind_speed) = Inr (Finite b)"
          "0 \<le> a" "a \<le> b" "b \<noteq> 0"
        unfolding v by blast
      from ramp_branch_f64_cubic_bounds [OF assms(2) rp this, of "Finite cut_in_wind_speed"]
      obtain p where p: "ramp_branch_f64 libm_pow (Finite v) (Finite rated_power)
          (Finite cut_in_wind_speed) (Finite rated_wind_speed) ''cubic'' = Inr (Finite p)"
        "0 \<le> p" "p \<le> rated_power" by blast
      have "?res = Inr (Finite p)" using res p(1) v c by simp
      with p(2,3) show ?thesis by simp
    qed
  qed
qed

theorem power_within_bounds_f64_witness:
  "''cubic'' \<in> set [''linear'', ''cubic''] \<and> is_double 15 \<and> is_double 3 \<and> is_double 11 \<and>
   (0::real) < 15 \<and> (0::real) \<le> 3 \<and> (3::real) < 11 \<and>
   float_pow3 pow_nearest (Finite 7) = Inr (Finite 343) \<and>
   float_pow3 pow_nearest (Finite 11) = Inr (Finite 1331) \<and>
   (0::real) \<le> 343 \<and> (343::real) \<le> 1331 \<and> (1331::real) \<noteq> 0 \<and>
   (\<exists>p. wind_turbine_power_f64 pow_nearest (Finite 7) (Finite 15) (Finite 3) (Finite 11)
         (Finite 25) ''cubic'' = Inr (Finite p) \<and> 0 \<le> p \<and> p \<le> 15) \<and>
   ''linear'' \<in> set [''linear'', ''cubic''] \<and>
   (\<exists>p. wind_turbine_power_f64 pow_nearest (Finite 7) (Finite 15) (Finite 3) (Finite 11)
         (Finite 25) ''linear'' = Inr (Finite p) \<and> 0 \<le> p \<and> p \<le> 15)"
proof -
  have d: "is_double 15" "is_double 3" "is_double 11"
    by (simp_all add: is_double_numeral)
  have p: "float_pow3 pow_nearest (Finite 7) = Inr (Finite 343)"
    "float_pow3 pow_nearest (Finite 11) = Inr (Finite 1331)"
    by (simp_all add: pow_nearest_numeral)
  have cub: "\<exists>p. wind_turbine_power_f64 pow_nearest (Finite 7) (Finite 15) (Finite 3)
         (Finite 11) (Finite 25) ''cubic'' = Inr (Finite p) \<and> 0 \<le> p \<and> p \<le> 15"
    using power_within_bounds_f64 [OF _ d, where interpolation_option = "''cubic''"
        and wind_speed = "Finite 7" and cut_out_wind_speed = "Finite 25"
        and libm_pow = pow_nearest] p
    by simp
  have lin: "\<exists>p. wind_turbine_power_f64 pow_nearest (Finite 7) (Finite 15) (Finite 3)
         (Finite 11) (Finite 25) ''linear'' = Inr (Finite p) \<and> 0 \<le> p \<and> p \<le> 15"
    using power_within_bounds_f64 [OF _ d, where interpolation_option = "''linear''"
        and wind_speed = "Finite 7" and cut_out_wind_speed = "Finite 25"
        and libm_pow = pow_nearest]
    by simp
  from cub lin d p show ?thesis by simp
qed

text \<open>
  With rated power 15, cut-in speed 0 and the option \<open>cubic\<close>: at wind speed \<open>2 ^ - 400\<close>
  and rated speed \<open>2 ^ - 399\<close> both cubes underflow to zero and the call raises
  \<open>ZeroDivisionError\<close>; at wind speed \<open>2 ^ 342\<close> and rated speed \<open>2 ^ 343\<close> the call raises
  \<open>OverflowError\<close>.
\<close>

theorem power_out_of_bounds_counterexample:
  "''cubic'' \<in> set [''linear'', ''cubic''] \<and> (0::real) < 15 \<and> (0::real) \<le> 0 \<and>
   (0::real) < 2 powi (- 399) \<and>
   wind_turbine_power_f64 pow_nearest (Finite (2 powi (- 400))) (Finite 15) (Finite 0)
     (Finite (2 powi (- 399))) (Finite 25) ''cubic'' = Inl ZeroDivisionError \<and>
   (0::real) < 2 powi 343 \<and>
   wind_turbine_power_f64 pow_nearest (Finite (2 powi 342)) (Finite 15) (Finite 0)
     (Finite (2 powi 343)) (Finite (2 powi 345)) ''cubic'' = Inl OverflowError"
proof -
  have p: "float_pow3 pow_nearest (Finite (2 powi (- 400))) = Inr (Finite 0)"
    "float_pow3 pow_nearest (Finite (2 powi (- 399))) = Inr (Finite 0)"
    "float_pow3 pow_nearest (Finite (2 powi 342)) = Inl OverflowError"
    by (simp_all only: float_pow3_pow2 pow_nearest_underflow pow_nearest_overflow)
  have c: "(2::real) powi (- 400) < 2 powi (- 399)" "(2::real) powi (- 400) < 25"
    "(2::real) powi 342 < 2 powi 343" "(2::real) powi 342 < 2 powi 345"
    "(0::real) \<le> 2 powi 342" "(0::real) \<le> 2 powi (- 400)"
    using pow2_lt [of "- 400" "- 399"] pow2_lt_1 [of "- 400"] pow2_lt [of 342 343]
      pow2_lt [of 342 345]
    by simp_all
  have w2: "wind_turbine_power_f64 pow_nearest (Finite (2 powi (- 400))) (Finite 15) (Finite 0)
     (Finite (2 powi (- 399))) (Finite 25) ''cubic'' = Inl ZeroDivisionError"
    using p c(1,2,6)
    by (simp only: wind_turbine_power_f64_def ramp_branch_f64_def g_v_cubic_f64_def
        float_truediv_def fge_def flt.simps fle.simps)
      simp
  have w3: "wind_turbine_power_f64 pow_nearest (Finite (2 powi 342)) (Finite 15) (Finite 0)
     (Finite (2 powi 343)) (Finite (2 powi 345)) ''cubic'' = Inl OverflowError"
    using p c(3,4,5)
    by (simp only: wind_turbine_power_f64_def ramp_branch_f64_def g_v_cubic_f64_def
        float_truediv_def fge_def flt.simps fle.simps)
      simp
  have "''cubic'' \<in> set [''linear'', ''cubic'']" "(0::real) < 15" "(0::real) \<le> 0"
    "(0::real) < 2 powi (- 399)" "(0::real) < 2 powi 343"
    by simp_all
  with w2 w3 show ?thesis by (simp only: simp_thms)
qed

end
